theory Spec2Isabelle
  imports Main "HOL-Library.Multiset"
begin

section \<open>Data model\<close>

text \<open>
  A token identifier is a string (viem's \<^verbatim>\<open>Address\<close>); \<^verbatim>\<open>zeroAddress\<close> is the sentinel
  of the chain's native currency. Raw amounts are JavaScript bigints: unbounded integers.
\<close>

type_synonym Address = string

definition zeroAddress :: Address where
  "zeroAddress = ''0x0000000000000000000000000000000000000000''"

text \<open>One entry of \<^verbatim>\<open>FormattedTokenBalances\<close>.\<close>

record FormattedBalance =
  rawAmount :: int
  formattedAmount :: string
  symbol :: string
  decimals :: nat

type_synonym FormattedTokenBalances = "Address \<rightharpoonup> FormattedBalance"

text \<open>One entry of the subgraph's \<^verbatim>\<open>IBalance\<close>: amount, symbol, decimals.\<close>

record BalanceEntry =
  amount :: int
  entrySymbol :: string
  entryDecimals :: nat

type_synonym IBalance = "Address \<rightharpoonup> BalanceEntry"

text \<open>
  Modelled from the spec: \<^verbatim>\<open>ZERO\<close> comes from the constants module, which is not among
  the sources; an entry absent from an input contributes zero to the sum.
\<close>

definition ZERO :: int where
  "ZERO = 0"

section \<open>Errors and imported names\<close>

text \<open>
  Every way a function of the module can fail. \<open>TypeError\<close> is JavaScript's own: a
  property read on \<^verbatim>\<open>undefined\<close>, or the destructuring of \<^verbatim>\<open>undefined\<close>.
  \<open>InvalidAddress\<close> is thrown by viem's \<^verbatim>\<open>getAddress\<close>, \<open>SyntaxError\<close> by
  \<^verbatim>\<open>BigInt\<close> on a string that is no integer literal, \<open>TransportError\<close> is a rejected
  request. The two \<^verbatim>\<open>throw new Error\<close> of the module have a constructor each.
  \<open>IllTyped\<close> is no exception of the program: it marks a value that a TypeScript cast
  \<^verbatim>\<open>e as T\<close> receives from outside \<^verbatim>\<open>T\<close>, an input the declared types exclude; the
  model stops there instead of inventing a meaning.
\<close>

datatype error =
    TypeError
  | InvalidAddress
  | SyntaxError
  | TransportError
  | CannotFetchDataForAddressZero
  | NoAlchemyProvider
  | IllTyped

record ChainInfo =
  nativeCurrencySymbol :: string

text \<open>
  The names the module imports from files that are not among the sources, or from
  libraries: the table \<^verbatim>\<open>CHAIN_INFO\<close>, \<^verbatim>\<open>fromBigIntToTokenValue\<close>,
  \<^verbatim>\<open>getSplitMainAddress\<close> and \<^verbatim>\<open>NATIVE_TOKEN_ADDRESS\<close> of the repository, viem's
  \<^verbatim>\<open>getAddress\<close> (the checksummed form of an address, or an exception) and JavaScript's
  \<^verbatim>\<open>BigInt\<close> on strings. They are parameters of everything below.
\<close>

record Imports =
  CHAIN_INFO :: "nat \<rightharpoonup> ChainInfo"
  fromBigIntToTokenValue :: "int \<Rightarrow> nat \<Rightarrow> string"
  getSplitMainAddress :: "nat \<Rightarrow> Address"
  NATIVE_TOKEN_ADDRESS :: Address
  getAddress :: "string \<Rightarrow> error + Address"
  BigInt :: "string \<Rightarrow> error + int"

section \<open>Balance merge engine\<close>

text \<open>
  lodash's \<^verbatim>\<open>mergeWith(object, ...sources, customizer)\<close>, for the way it is called here:
  every value is an object and the customizer never returns \<^verbatim>\<open>undefined\<close>. The sources
  are visited from left to right; for each key \<^verbatim>\<open>k\<close> of a source the destination gets
  \<^verbatim>\<open>customizer(object[k], source[k])\<close>, where \<^verbatim>\<open>object[k]\<close> is \<^verbatim>\<open>undefined\<close> (here
  \<open>None\<close>) when the destination has no such key yet. Keys are handled independently of
  each other, so one source is merged in pointwise.
\<close>

definition mergeSource ::
  "('v option \<Rightarrow> 'v \<Rightarrow> 'v) \<Rightarrow> ('k \<rightharpoonup> 'v) \<Rightarrow> ('k \<rightharpoonup> 'v) \<Rightarrow> ('k \<rightharpoonup> 'v)" where
  "mergeSource customizer object source =
     (\<lambda>k. case source k of
             None \<Rightarrow> object k
           | Some s \<Rightarrow> Some (customizer (object k) s))"

definition mergeWith ::
  "('k \<rightharpoonup> 'v) \<Rightarrow> ('k \<rightharpoonup> 'v) list \<Rightarrow> ('v option \<Rightarrow> 'v \<Rightarrow> 'v) \<Rightarrow> ('k \<rightharpoonup> 'v)" where
  "mergeWith object sources customizer = foldl (mergeSource customizer) object sources"

text \<open>
  The customizer of \<^verbatim>\<open>mergeBalances\<close>. \<^verbatim>\<open>o\<close> is the destination's value (\<open>None\<close> for
  \<^verbatim>\<open>undefined\<close>), \<^verbatim>\<open>s\<close> the source's, which is defined whenever the customizer runs.
\<close>

definition mergeBalancesCustomizer :: "BalanceEntry option \<Rightarrow> BalanceEntry \<Rightarrow> BalanceEntry" where
  "mergeBalancesCustomizer objValue s =
     \<lparr> amount = (case objValue of None \<Rightarrow> ZERO | Some ov \<Rightarrow> amount ov) + amount s,
       entrySymbol = (case objValue of None \<Rightarrow> entrySymbol s | Some ov \<Rightarrow> entrySymbol ov),
       entryDecimals = (case objValue of None \<Rightarrow> entryDecimals s | Some ov \<Rightarrow> entryDecimals ov) \<rparr>"

definition mergeBalances :: "IBalance list \<Rightarrow> IBalance" where
  "mergeBalances balances = mergeWith Map.empty balances mergeBalancesCustomizer"

text \<open>
  The customizer of \<^verbatim>\<open>mergeFormattedTokenBalances\<close>.
\<close>

definition mergeFormattedCustomizer ::
  "Imports \<Rightarrow> FormattedBalance option \<Rightarrow> FormattedBalance \<Rightarrow> FormattedBalance" where
  "mergeFormattedCustomizer env objValue s =
     (let decimals' = (case objValue of None \<Rightarrow> decimals s | Some ov \<Rightarrow> decimals ov);
          rawAmount' = (case objValue of None \<Rightarrow> ZERO | Some ov \<Rightarrow> rawAmount ov) + rawAmount s;
          formattedAmount' = fromBigIntToTokenValue env rawAmount' decimals'
      in \<lparr> rawAmount = rawAmount',
           formattedAmount = formattedAmount',
           symbol = (case objValue of None \<Rightarrow> symbol s | Some ov \<Rightarrow> symbol ov),
           decimals = decimals' \<rparr>)"

definition mergeFormattedTokenBalances ::
  "Imports \<Rightarrow> FormattedTokenBalances list \<Rightarrow> FormattedTokenBalances" where
  "mergeFormattedTokenBalances env balances =
     mergeWith Map.empty balances (mergeFormattedCustomizer env)"

text \<open>What an input contributes to a key's sum: its raw amount, or zero without the key.\<close>

definition rawAt :: "FormattedTokenBalances \<Rightarrow> Address \<Rightarrow> int" where
  "rawAt b k = (case b k of None \<Rightarrow> 0 | Some e \<Rightarrow> rawAmount e)"

definition amountAt :: "IBalance \<Rightarrow> Address \<Rightarrow> int" where
  "amountAt b k = (case b k of None \<Rightarrow> 0 | Some e \<Rightarrow> amount e)"

section \<open>Multicall results and contract calls\<close>

text \<open>
  An element of viem's \<^verbatim>\<open>MulticallReturnType\<close>; only its \<^verbatim>\<open>result\<close> is ever read, so
  the element is modelled by that value: \<open>Undefined\<close> for a call that reverted, otherwise
  the decoded return value (a string, a number, a bigint, or the pair of bigints of
  \<^verbatim>\<open>getSplitBalance\<close>, whose components the code tests against \<^verbatim>\<open>undefined\<close>).
\<close>

datatype MulticallResult =
    Undefined
  | StringResult string
  | NumberResult nat
  | BigIntResult int
  | TupleResult "int option" "int option"

text \<open>The casts \<^verbatim>\<open>data.result as string\<close>, \<^verbatim>\<open>as number\<close>, \<^verbatim>\<open>as bigint\<close>.\<close>

fun asString :: "MulticallResult \<Rightarrow> error + string option" where
  "asString Undefined = Inr None"
| "asString (StringResult s) = Inr (Some s)"
| "asString _ = Inl IllTyped"

fun asNumber :: "MulticallResult \<Rightarrow> error + nat option" where
  "asNumber Undefined = Inr None"
| "asNumber (NumberResult n) = Inr (Some n)"
| "asNumber _ = Inl IllTyped"

fun asBigInt :: "MulticallResult \<Rightarrow> error + int option" where
  "asBigInt Undefined = Inr None"
| "asBigInt (BigIntResult n) = Inr (Some n)"
| "asBigInt _ = Inl IllTyped"

text \<open>
  \<^verbatim>\<open>const [splitBalance, warehouseBalance] = data.result as [bigint, bigint]\<close>: array
  destructuring asks its right-hand side for an iterator, so on \<^verbatim>\<open>undefined\<close> it
  throws a TypeError.
\<close>

fun destructurePair :: "MulticallResult \<Rightarrow> error + (int option \<times> int option)" where
  "destructurePair (TupleResult splitBalance warehouseBalance) = Inr (splitBalance, warehouseBalance)"
| "destructurePair Undefined = Inl TypeError"
| "destructurePair _ = Inl IllTyped"

text \<open>
  A contract-call descriptor. The ABI is given by the name of the constant the source
  passes, not spelled out. A token of the metadata mapping: the reducers test its symbol
  and decimals against \<^verbatim>\<open>undefined\<close>, so both are optional.
\<close>

record ContractCall =
  callAddress :: Address
  abi :: string
  functionName :: string
  args :: "Address list"

record Token =
  address :: Address
  tokenSymbol :: "string option"
  tokenDecimals :: "nat option"

type_synonym TokenData = "Address \<rightharpoonup> Token"

record AlchemyTokenBalance =
  contractAddress :: string
  tokenBalance :: string

record AlchemyPage =
  tokenBalances :: "AlchemyTokenBalance list"
  pageKey :: "string option"

text \<open>
  The read client. \<open>multicall\<close> answers a list of calls with a list of results, or is
  rejected. \<^verbatim>\<open>retryExponentialBackoff\<close> lives in a module that is not among the sources;
  \<open>getBalance\<close> and \<open>getTokenBalances\<close> stand for the outcome of a whole retried call:
  its value, or the error it gives up with. The external API is stateful, so the answer
  to an \<^verbatim>\<open>alchemy_getTokenBalances\<close> request may depend on how many such requests came
  before it (the first argument) as well as on the address and the cursor sent.
\<close>

record SplitsPublicClient =
  multicall :: "ContractCall list \<Rightarrow> error + MulticallResult list"
  isAlchemyPublicClient :: bool
  getBalance :: "Address \<Rightarrow> error + int"
  getTokenBalances :: "nat \<Rightarrow> Address \<Rightarrow> string option \<Rightarrow> error + AlchemyPage"

text \<open>
  \<^verbatim>\<open>xs.map((x, index) => ...)\<close> run for its effect on a mapping: the callback gets the
  element, its index and the mapping so far; an exception ends the run.
\<close>

fun forEachIndexed ::
  "('a \<Rightarrow> nat \<Rightarrow> 's \<Rightarrow> error + 's) \<Rightarrow> nat \<Rightarrow> 'a list \<Rightarrow> 's \<Rightarrow> error + 's" where
  "forEachIndexed callback index [] state = Inr state"
| "forEachIndexed callback index (x # xs) state =
     (case callback x index state of
        Inl e \<Rightarrow> Inl e
      | Inr state' \<Rightarrow> forEachIndexed callback (Suc index) xs state')"

text \<open>\<^verbatim>\<open>xs.map(f)\<close> for an \<^verbatim>\<open>f\<close> that may throw.\<close>

fun mapThrowing :: "('a \<Rightarrow> error + 'b) \<Rightarrow> 'a list \<Rightarrow> error + 'b list" where
  "mapThrowing f [] = Inr []"
| "mapThrowing f (x # xs) =
     (case f x of
        Inl e \<Rightarrow> Inl e
      | Inr y \<Rightarrow> (case mapThrowing f xs of Inl e \<Rightarrow> Inl e | Inr ys \<Rightarrow> Inr (y # ys)))"

section \<open>Balance call builder\<close>

definition getTokenBalanceCalls :: "Address \<Rightarrow> Address list \<Rightarrow> ContractCall list" where
  "getTokenBalanceCalls accountAddress tokenList =
     map (\<lambda>token.
            if token = zeroAddress
            then \<lparr> callAddress = ''0xcA11bde05977b3631167028862bE2a173976CA11'',
                   abi = ''ethBalanceAbi'', functionName = ''getEthBalance'',
                   args = [accountAddress] \<rparr>
            else \<lparr> callAddress = token, abi = ''erc20Abi'', functionName = ''balanceOf'',
                   args = [accountAddress] \<rparr>)
         tokenList"

datatype SplitType = splitV1 | splitV2

definition getSplitTokenBalanceCalls ::
  "Imports \<Rightarrow> SplitType \<Rightarrow> nat \<Rightarrow> Address \<Rightarrow> Address list \<Rightarrow> ContractCall list" where
  "getSplitTokenBalanceCalls env type chainId splitAddress tokenList =
     map (\<lambda>token.
            if type = splitV1 then
              (if token = zeroAddress
               then \<lparr> callAddress = getSplitMainAddress env chainId, abi = ''splitMainPolygonAbi'',
                      functionName = ''getETHBalance'', args = [splitAddress] \<rparr>
               else \<lparr> callAddress = getSplitMainAddress env chainId, abi = ''splitMainPolygonAbi'',
                      functionName = ''getERC20Balance'', args = [splitAddress, token] \<rparr>)
            else \<lparr> callAddress = splitAddress, abi = ''splitV2ABI'',
                   functionName = ''getSplitBalance'',
                   args = [if token = zeroAddress then NATIVE_TOKEN_ADDRESS env else token] \<rparr>)
         tokenList"

definition getTokenDataCalls :: "Address list \<Rightarrow> error + ContractCall list" where
  "getTokenDataCalls tokens =
     (case mapThrowing
             (\<lambda>token.
                if token = zeroAddress then Inl CannotFetchDataForAddressZero
                else Inr [ \<lparr> callAddress = token, abi = ''erc20Abi'', functionName = ''symbol'',
                             args = [] \<rparr>,
                           \<lparr> callAddress = token, abi = ''erc20Abi'', functionName = ''decimals'',
                             args = [] \<rparr> ])
             tokens of
        Inl e \<Rightarrow> Inl e
      | Inr calls \<Rightarrow> Inr (concat calls))"

section \<open>Token metadata resolver\<close>

text \<open>
  The callback of \<^verbatim>\<open>filteredTokens.map\<close> in \<^verbatim>\<open>fetchTokenData\<close>. Reading
  \<^verbatim>\<open>multicallResponse[i].result\<close> beyond the end of the response is a property read on
  \<^verbatim>\<open>undefined\<close>.
\<close>

definition tokenDataCallback ::
  "MulticallResult list \<Rightarrow> Address \<Rightarrow> nat \<Rightarrow> TokenData \<Rightarrow> error + TokenData" where
  "tokenDataCallback multicallResponse token index tokenData =
     (if length multicallResponse \<le> index * 2 then Inl TypeError
      else case asString (multicallResponse ! (index * 2)) of
        Inl e \<Rightarrow> Inl e
      | Inr symbol' \<Rightarrow>
          if length multicallResponse \<le> index * 2 + 1 then Inl TypeError
          else case asNumber (multicallResponse ! (index * 2 + 1)) of
            Inl e \<Rightarrow> Inl e
          | Inr decimals' \<Rightarrow>
              (case (symbol', decimals') of
                 (Some s, Some d) \<Rightarrow>
                   Inr (tokenData(token \<mapsto>
                          \<lparr> address = token, tokenSymbol = Some s, tokenDecimals = Some d \<rparr>))
               | _ \<Rightarrow> Inr tokenData))"

definition fetchTokenData :: "Address list \<Rightarrow> SplitsPublicClient \<Rightarrow> error + TokenData" where
  "fetchTokenData tokens publicClient =
     (let filteredTokens = filter (\<lambda>token. token \<noteq> zeroAddress) tokens in
      case getTokenDataCalls filteredTokens of
        Inl e \<Rightarrow> Inl e
      | Inr contractCalls \<Rightarrow>
          (case multicall publicClient contractCalls of
             Inl e \<Rightarrow> Inl e
           | Inr multicallResponse \<Rightarrow>
               forEachIndexed (tokenDataCallback multicallResponse) 0 filteredTokens Map.empty))"

section \<open>Batch response reducers\<close>

text \<open>\<^verbatim>\<open>CHAIN_INFO[chainId]?.nativeCurrency.symbol ?? 'ETH'\<close>\<close>

definition nativeSymbol :: "Imports \<Rightarrow> nat \<Rightarrow> string" where
  "nativeSymbol env chainId =
     (case CHAIN_INFO env chainId of None \<Rightarrow> ''ETH'' | Some info \<Rightarrow> nativeCurrencySymbol info)"

text \<open>The callback of \<^verbatim>\<open>fullTokenList.map\<close> in \<^verbatim>\<open>processBalanceMulticallResponse\<close>.\<close>

definition balanceCallback ::
  "Imports \<Rightarrow> nat \<Rightarrow> TokenData \<Rightarrow> MulticallResult list \<Rightarrow>
   Address \<Rightarrow> nat \<Rightarrow> FormattedTokenBalances \<Rightarrow> error + FormattedTokenBalances" where
  "balanceCallback env chainId tokenData multicallResponse token index balances =
     (if length multicallResponse \<le> index then Inl TypeError
      else case asBigInt (multicallResponse ! index) of
        Inl e \<Rightarrow> Inl e
      | Inr None \<Rightarrow> Inr balances
      | Inr (Some balance) \<Rightarrow>
          if token = zeroAddress then
            Inr (balances(zeroAddress \<mapsto>
                   \<lparr> rawAmount = balance,
                     formattedAmount = fromBigIntToTokenValue env balance 18,
                     symbol = nativeSymbol env chainId,
                     decimals = 18 \<rparr>))
          else
            (case tokenData token of
               None \<Rightarrow> Inr balances
             | Some data \<Rightarrow>
                 (case (tokenSymbol data, tokenDecimals data) of
                    (Some symbol', Some decimals') \<Rightarrow>
                      Inr (balances(token \<mapsto>
                             \<lparr> rawAmount = balance,
                               formattedAmount = fromBigIntToTokenValue env balance decimals',
                               symbol = symbol',
                               decimals = decimals' \<rparr>))
                  | _ \<Rightarrow> Inr balances)))"

definition processBalanceMulticallResponse ::
  "Imports \<Rightarrow> nat \<Rightarrow> Address list \<Rightarrow> TokenData \<Rightarrow> MulticallResult list \<Rightarrow>
   FormattedTokenBalances \<Rightarrow> error + FormattedTokenBalances" where
  "processBalanceMulticallResponse env chainId fullTokenList tokenData multicallResponse balances =
     forEachIndexed (balanceCallback env chainId tokenData multicallResponse) 0 fullTokenList balances"

text \<open>
  The second half of the callback of \<^verbatim>\<open>processSplitBalanceMulticallResponse\<close>, from
  \<^verbatim>\<open>let symbol\<close> on: \<open>balance\<close> is the variable \<^verbatim>\<open>balance\<close>, \<open>None\<close> when it holds
  \<^verbatim>\<open>undefined\<close>, for which \<^verbatim>\<open>balance > BigInt(2)\<close> is false.
\<close>

definition splitBalanceStore ::
  "Imports \<Rightarrow> nat \<Rightarrow> TokenData \<Rightarrow> Address \<Rightarrow> int option \<Rightarrow>
   FormattedTokenBalances \<Rightarrow> error + FormattedTokenBalances" where
  "splitBalanceStore env chainId tokenData token balance balances =
     (case (if token = zeroAddress then Some (nativeSymbol env chainId, 18)
            else (case tokenData token of
                    None \<Rightarrow> None
                  | Some data \<Rightarrow>
                      (case (tokenSymbol data, tokenDecimals data) of
                         (Some s, Some d) \<Rightarrow> Some (s, d)
                       | _ \<Rightarrow> None))) of
        None \<Rightarrow> Inr balances
      | Some (symbol', decimals') \<Rightarrow>
          (case balance of
             None \<Rightarrow> Inr balances
           | Some b \<Rightarrow>
               if b > 2 then
                 Inr (balances(token \<mapsto>
                        \<lparr> rawAmount = b,
                          formattedAmount = fromBigIntToTokenValue env b decimals',
                          symbol = symbol',
                          decimals = decimals' \<rparr>))
               else Inr balances))"

text \<open>The callback of \<^verbatim>\<open>fullTokenList.map\<close> in \<^verbatim>\<open>processSplitBalanceMulticallResponse\<close>.\<close>

definition splitBalanceCallback ::
  "Imports \<Rightarrow> SplitType \<Rightarrow> nat \<Rightarrow> TokenData \<Rightarrow> MulticallResult list \<Rightarrow>
   Address \<Rightarrow> nat \<Rightarrow> FormattedTokenBalances \<Rightarrow> error + FormattedTokenBalances" where
  "splitBalanceCallback env type chainId tokenData multicallResponse token index balances =
     (if length multicallResponse \<le> index then Inl TypeError
      else if type = splitV1 then
        (case asBigInt (multicallResponse ! index) of
           Inl e \<Rightarrow> Inl e
         | Inr balance \<Rightarrow> splitBalanceStore env chainId tokenData token balance balances)
      else
        (case destructurePair (multicallResponse ! index) of
           Inl e \<Rightarrow> Inl e
         | Inr (splitBalance, warehouseBalance) \<Rightarrow>
             (case (splitBalance, warehouseBalance) of
                (Some sb, Some wb) \<Rightarrow>
                  splitBalanceStore env chainId tokenData token (Some (sb + wb)) balances
              | _ \<Rightarrow> Inr balances)))"

definition processSplitBalanceMulticallResponse ::
  "Imports \<Rightarrow> SplitType \<Rightarrow> nat \<Rightarrow> Address list \<Rightarrow> TokenData \<Rightarrow> MulticallResult list \<Rightarrow>
   FormattedTokenBalances \<Rightarrow> error + FormattedTokenBalances" where
  "processSplitBalanceMulticallResponse env type chainId fullTokenList tokenData multicallResponse
       balances =
     forEachIndexed (splitBalanceCallback env type chainId tokenData multicallResponse) 0
       fullTokenList balances"

section \<open>Balance-fetch operations\<close>

text \<open>
  Both operations start the metadata fetch and the balance multicall together and wait for
  both (\<^verbatim>\<open>Promise.all\<close>); when both fail, the error reported is a matter of timing, here
  that of the metadata fetch.
\<close>

definition fetchActiveBalances ::
  "Imports \<Rightarrow> nat \<Rightarrow> Address \<Rightarrow> SplitsPublicClient \<Rightarrow> Address list \<Rightarrow>
   error + FormattedTokenBalances" where
  "fetchActiveBalances env chainId accountAddress publicClient fullTokenList =
     (let erc20Tokens = filter (\<lambda>token. token \<noteq> zeroAddress) fullTokenList;
          contractCalls = getTokenBalanceCalls accountAddress fullTokenList
      in case fetchTokenData erc20Tokens publicClient of
           Inl e \<Rightarrow> Inl e
         | Inr tokenData \<Rightarrow>
             (case multicall publicClient contractCalls of
                Inl e \<Rightarrow> Inl e
              | Inr multicallResponse \<Rightarrow>
                  processBalanceMulticallResponse env chainId fullTokenList tokenData
                    multicallResponse Map.empty))"

definition fetchSplitActiveBalances ::
  "Imports \<Rightarrow> SplitType \<Rightarrow> nat \<Rightarrow> Address \<Rightarrow> SplitsPublicClient \<Rightarrow> Address list \<Rightarrow>
   error + FormattedTokenBalances" where
  "fetchSplitActiveBalances env type chainId splitAddress publicClient fullTokenList =
     (case mapThrowing (getAddress env) fullTokenList of
        Inl e \<Rightarrow> Inl e
      | Inr formattedTokenList \<Rightarrow>
          (let erc20Tokens = filter (\<lambda>token. token \<noteq> zeroAddress) formattedTokenList;
               contractCalls =
                 getSplitTokenBalanceCalls env type chainId splitAddress formattedTokenList
           in case fetchTokenData erc20Tokens publicClient of
                Inl e \<Rightarrow> Inl e
              | Inr tokenData \<Rightarrow>
                  (case multicall publicClient contractCalls of
                     Inl e \<Rightarrow> Inl e
                   | Inr multicallResponse \<Rightarrow>
                       processSplitBalanceMulticallResponse env type chainId formattedTokenList
                         tokenData multicallResponse Map.empty)))"

section \<open>Paginated external balance fetcher\<close>

text \<open>
  The loop variable \<^verbatim>\<open>pageKey\<close> holds a string, or \<^verbatim>\<open>undefined\<close> (\<open>None\<close>) once a page
  came without a cursor. Both \<^verbatim>\<open>undefined\<close> and the empty string are falsy.
\<close>

definition truthy :: "string option \<Rightarrow> bool" where
  "truthy pageKey' = (case pageKey' of None \<Rightarrow> False | Some s \<Rightarrow> s \<noteq> [])"

text \<open>The requests handed to \<^verbatim>\<open>retryExponentialBackoff\<close>, as a log.\<close>

datatype Request =
    TokenBalancesRequest Address "string option"
  | NativeBalanceRequest Address

text \<open>\<^verbatim>\<open>promisesArray\<close>: what one iteration sends, given the cursor it starts with.\<close>

definition promisesArray :: "Address \<Rightarrow> string option \<Rightarrow> Request list" where
  "promisesArray account pageKey' =
     TokenBalancesRequest account (if truthy pageKey' then pageKey' else None)
     # (if \<not> truthy pageKey' then [NativeBalanceRequest account] else [])"

text \<open>The callback of \<^verbatim>\<open>erc20Balances.tokenBalances.map\<close>; it does not use the index.\<close>

definition alchemyBalanceCallback ::
  "Imports \<Rightarrow> TokenData \<Rightarrow> AlchemyTokenBalance \<Rightarrow> nat \<Rightarrow> FormattedTokenBalances \<Rightarrow>
   error + FormattedTokenBalances" where
  "alchemyBalanceCallback env erc20TokenData balanceData index balances =
     (case erc20TokenData (contractAddress balanceData) of
        None \<Rightarrow> Inr balances
      | Some data \<Rightarrow>
          (case getAddress env (contractAddress balanceData) of
             Inl e \<Rightarrow> Inl e
           | Inr formattedAddress \<Rightarrow>
               (case BigInt env (tokenBalance balanceData) of
                  Inl e \<Rightarrow> Inl e
                | Inr rawAmount' \<Rightarrow>
                    (let symbol' = (case tokenSymbol data of None \<Rightarrow> ''UNKNOWN'' | Some s \<Rightarrow> s);
                         decimals' = (case tokenDecimals data of None \<Rightarrow> 18 | Some d \<Rightarrow> d)
                     in Inr (balances(formattedAddress \<mapsto>
                               \<lparr> rawAmount = rawAmount',
                                 formattedAmount = fromBigIntToTokenValue env rawAmount' decimals',
                                 symbol = symbol',
                                 decimals = decimals' \<rparr>))))))"

text \<open>
  One pass through the body of the \<^verbatim>\<open>do ... while\<close>: \<open>n\<close> counts the passes before it,
  \<open>pageKey'\<close> and \<open>balances\<close> are the variables on entry; the result is the pair of
  \<^verbatim>\<open>balances\<close> and \<^verbatim>\<open>pageKey\<close> at the loop test. \<^verbatim>\<open>Promise.all\<close> rejects as soon as
  one of its promises does; which of two failing requests is reported is a matter of
  timing, here the first of the array.
\<close>

definition alchemyPass ::
  "Imports \<Rightarrow> nat \<Rightarrow> Address \<Rightarrow> SplitsPublicClient \<Rightarrow> nat \<Rightarrow> string option \<Rightarrow>
   FormattedTokenBalances \<Rightarrow> error + (FormattedTokenBalances \<times> string option)" where
  "alchemyPass env chainId account rpcPublicClient n pageKey' balances =
     (case getTokenBalances rpcPublicClient n account
             (if truthy pageKey' then pageKey' else None) of
        Inl e \<Rightarrow> Inl e
      | Inr erc20Balances \<Rightarrow>
          (case (if \<not> truthy pageKey' then
                   (case getBalance rpcPublicClient account of
                      Inl e \<Rightarrow> Inl e
                    | Inr ethBalance \<Rightarrow>
                        Inr (balances(zeroAddress \<mapsto>
                               \<lparr> rawAmount = ethBalance,
                                 formattedAmount = fromBigIntToTokenValue env ethBalance 18,
                                 symbol = nativeSymbol env chainId,
                                 decimals = 18 \<rparr>)))
                 else Inr balances) of
             Inl e \<Rightarrow> Inl e
           | Inr balances1 \<Rightarrow>
               (case fetchTokenData (map contractAddress (tokenBalances erc20Balances))
                       rpcPublicClient of
                  Inl e \<Rightarrow> Inl e
                | Inr erc20TokenData \<Rightarrow>
                    (case forEachIndexed (alchemyBalanceCallback env erc20TokenData) 0
                            (tokenBalances erc20Balances) balances1 of
                       Inl e \<Rightarrow> Inl e
                     | Inr balances2 \<Rightarrow> Inr (balances2, pageKey erc20Balances)))))"

text \<open>
  The \<^verbatim>\<open>do ... while (pageKey)\<close> loop. It has no bound of its own, so it is a partial
  function: \<open>None\<close> is a run that never leaves the loop. A run that ends gives the
  mapping or the exception, with the log of the requests it sent.
\<close>

partial_function (option) alchemyLoop ::
  "Imports \<Rightarrow> nat \<Rightarrow> Address \<Rightarrow> SplitsPublicClient \<Rightarrow> nat \<Rightarrow> string option \<Rightarrow>
   FormattedTokenBalances \<Rightarrow> Request list \<Rightarrow>
   ((error + FormattedTokenBalances) \<times> Request list) option" where
  "alchemyLoop env chainId account rpcPublicClient n pageKey' balances sent =
     (case alchemyPass env chainId account rpcPublicClient n pageKey' balances of
        Inl e \<Rightarrow> Some (Inl e, sent @ promisesArray account pageKey')
      | Inr (balances', nextKey) \<Rightarrow>
          if truthy nextKey
          then alchemyLoop env chainId account rpcPublicClient (Suc n) nextKey balances'
                 (sent @ promisesArray account pageKey')
          else Some (Inr balances', sent @ promisesArray account pageKey'))"

definition fetchContractBalancesWithAlchemy ::
  "Imports \<Rightarrow> nat \<Rightarrow> Address \<Rightarrow> SplitsPublicClient \<Rightarrow>
   ((error + FormattedTokenBalances) \<times> Request list) option" where
  "fetchContractBalancesWithAlchemy env chainId account rpcPublicClient =
     (if \<not> isAlchemyPublicClient rpcPublicClient then Some (Inl NoAlchemyProvider, [])
      else alchemyLoop env chainId account rpcPublicClient 0 (Some []) Map.empty [])"

section \<open>Sample inputs\<close>

text \<open>
  Concrete inputs on which the theorems below are run. The imported functions are given
  small stand-ins: a formatter that only tells whether scaling applies, and tables for
  \<^verbatim>\<open>getAddress\<close> and \<^verbatim>\<open>BigInt\<close> that cover the strings of the examples.
\<close>

definition usdcLower :: Address where
  "usdcLower = ''0xa0b86991c6218b36c1d19d4a2e9eb0ce3606eb48''"

definition usdcChecksummed :: Address where
  "usdcChecksummed = ''0xA0b86991c6218b36c1d19D4a2e9Eb0cE3606eB48''"

definition daiChecksummed :: Address where
  "daiChecksummed = ''0x6B175474E89094C44Da98b954EedeAC495271d0F''"

definition sampleGetAddress :: "string \<Rightarrow> error + Address" where
  "sampleGetAddress a =
     (if a = usdcLower \<or> a = usdcChecksummed then Inr usdcChecksummed
      else if a = daiChecksummed then Inr daiChecksummed
      else if a = zeroAddress then Inr zeroAddress
      else Inl InvalidAddress)"

definition sampleBigInt :: "string \<Rightarrow> error + int" where
  "sampleBigInt s =
     (if s = ''0x00'' then Inr 0
      else if s = ''0x05'' then Inr 5
      else if s = ''0x10'' then Inr 16
      else Inl SyntaxError)"

definition sampleImports :: Imports where
  "sampleImports =
     \<lparr> CHAIN_INFO = [137 \<mapsto> \<lparr> nativeCurrencySymbol = ''MATIC'' \<rparr>],
       fromBigIntToTokenValue = (\<lambda>a d. if d = 0 then ''units'' else ''scaled''),
       getSplitMainAddress = (\<lambda>chainId. ''0x2ed6c4B5dA6378c7897AC67Ba9e43102Feb694EE''),
       NATIVE_TOKEN_ADDRESS = ''0xEeeeeEeeeEeEeeEeEeEeeEEEeeeeEeeeeeeeEEeE'',
       getAddress = sampleGetAddress,
       BigInt = sampleBigInt \<rparr>"

definition sampleBalancesA :: FormattedTokenBalances where
  "sampleBalancesA =
     [usdcChecksummed \<mapsto>
        \<lparr> rawAmount = 5, formattedAmount = ''0.000005'', symbol = ''USDC'', decimals = 6 \<rparr>]"

definition sampleBalancesB :: FormattedTokenBalances where
  "sampleBalancesB =
     [usdcChecksummed \<mapsto>
        \<lparr> rawAmount = 7, formattedAmount = ''0.000007'', symbol = ''USDC'', decimals = 6 \<rparr>,
      daiChecksummed \<mapsto>
        \<lparr> rawAmount = 3, formattedAmount = ''0.000000000000000003'', symbol = ''DAI'',
          decimals = 18 \<rparr>]"

definition sampleIBalanceA :: IBalance where
  "sampleIBalanceA =
     [usdcChecksummed \<mapsto> \<lparr> amount = 5, entrySymbol = ''USDC'', entryDecimals = 6 \<rparr>]"

definition sampleIBalanceB :: IBalance where
  "sampleIBalanceB =
     [usdcChecksummed \<mapsto> \<lparr> amount = 7, entrySymbol = ''USDC'', entryDecimals = 6 \<rparr>]"

section \<open>Callbacks that store one entry\<close>

text \<open>
  Each callback above either throws, or leaves the mapping as it is, or stores one entry
  under a key that depends on the element alone. \<open>entryAt\<close> reads that entry off a run
  of the callback on the empty mapping; \<open>stores\<close> says that this is all the callback
  does.
\<close>

definition entryAt ::
  "('a \<Rightarrow> 'k) \<Rightarrow> ('a \<Rightarrow> nat \<Rightarrow> ('k \<rightharpoonup> 'v) \<Rightarrow> error + ('k \<rightharpoonup> 'v)) \<Rightarrow> 'a \<Rightarrow> nat \<Rightarrow> error + 'v option" where
  "entryAt key callback x index =
     (case callback x index Map.empty of Inl e \<Rightarrow> Inl e | Inr m \<Rightarrow> Inr (m (key x)))"

definition stores ::
  "('a \<Rightarrow> 'k) \<Rightarrow> ('a \<Rightarrow> nat \<Rightarrow> ('k \<rightharpoonup> 'v) \<Rightarrow> error + ('k \<rightharpoonup> 'v)) \<Rightarrow> bool" where
  "stores key callback =
     (\<forall>x index state.
        callback x index state =
          (case entryAt key callback x index of
             Inl e \<Rightarrow> Inl e
           | Inr None \<Rightarrow> Inr state
           | Inr (Some v) \<Rightarrow> Inr (state(key x \<mapsto> v))))"

section \<open>More sample inputs\<close>

definition wethChecksummed :: Address where
  "wethChecksummed = ''0xC02aaA39b223FE8D0A0e5C4F27eAD9083C756Cc2''"

definition sampleTokenData :: TokenData where
  "sampleTokenData =
     [usdcChecksummed \<mapsto>
        \<lparr> address = usdcChecksummed, tokenSymbol = Some ''USDC'', tokenDecimals = Some 6 \<rparr>,
      daiChecksummed \<mapsto>
        \<lparr> address = daiChecksummed, tokenSymbol = Some ''DAI'', tokenDecimals = Some 18 \<rparr>,
      wethChecksummed \<mapsto>
        \<lparr> address = wethChecksummed, tokenSymbol = Some ''WETH'', tokenDecimals = Some 18 \<rparr>]"

text \<open>A chain on which every token is called USDC with 6 decimals and holds 5 units.\<close>

definition sampleAnswer :: "ContractCall \<Rightarrow> MulticallResult" where
  "sampleAnswer call =
     (if functionName call = ''symbol'' then StringResult ''USDC''
      else if functionName call = ''decimals'' then NumberResult 6
      else if functionName call = ''balanceOf'' then BigIntResult 5
      else if functionName call = ''getEthBalance'' then BigIntResult 16
      else if functionName call = ''getERC20Balance'' then BigIntResult 5
      else if functionName call = ''getETHBalance'' then BigIntResult 16
      else if functionName call = ''getSplitBalance'' then TupleResult (Some 2) (Some 3)
      else Undefined)"

text \<open>
  An external API with three pages: the first two come with the cursors \<^verbatim>\<open>A\<close> and
  \<^verbatim>\<open>B\<close>, the third with none.
\<close>

definition samplePages :: "nat \<Rightarrow> Address \<Rightarrow> string option \<Rightarrow> error + AlchemyPage" where
  "samplePages n account cursor =
     (if n = 0 then Inr \<lparr> tokenBalances = [], pageKey = Some ''A'' \<rparr>
      else if n = 1 then
        Inr \<lparr> tokenBalances = [\<lparr> contractAddress = usdcLower, tokenBalance = ''0x05'' \<rparr>],
              pageKey = Some ''B'' \<rparr>
      else
        Inr \<lparr> tokenBalances = [\<lparr> contractAddress = daiChecksummed, tokenBalance = ''0x10'' \<rparr>],
              pageKey = None \<rparr>)"

definition sampleClient :: SplitsPublicClient where
  "sampleClient =
     \<lparr> multicall = (\<lambda>calls. Inr (map sampleAnswer calls)),
       isAlchemyPublicClient = True,
       getBalance = (\<lambda>account. Inr 16),
       getTokenBalances = samplePages \<rparr>"

text \<open>An external API that hands out a cursor with every page.\<close>

definition endlessClient :: SplitsPublicClient where
  "endlessClient =
     \<lparr> multicall = (\<lambda>calls. Inr (map sampleAnswer calls)),
       isAlchemyPublicClient = True,
       getBalance = (\<lambda>account. Inr 16),
       getTokenBalances = (\<lambda>n account cursor. Inr \<lparr> tokenBalances = [], pageKey = Some ''A'' \<rparr>) \<rparr>"

text \<open>Four tokens with the raw amounts 0, 1, 2 and 3, as single results and as pairs.\<close>

definition sampleTokens :: "Address list" where
  "sampleTokens = [zeroAddress, usdcChecksummed, daiChecksummed, wethChecksummed]"

definition sampleAmounts :: "MulticallResult list" where
  "sampleAmounts = [BigIntResult 0, BigIntResult 1, BigIntResult 2, BigIntResult 3]"

definition samplePairs :: "MulticallResult list" where
  "samplePairs = [TupleResult (Some 0) (Some 0), TupleResult (Some 1) (Some 0),
                  TupleResult (Some 1) (Some 1), TupleResult (Some 1) (Some 2)]"

text \<open>A chain on which the \<^verbatim>\<open>decimals\<close> call of one token reverts.\<close>

definition partialClient :: SplitsPublicClient where
  "partialClient =
     \<lparr> multicall =
         (\<lambda>calls. Inr (map (\<lambda>call. if callAddress call = daiChecksummed \<and>
                                        functionName call = ''decimals''
                                     then Undefined else sampleAnswer call) calls)),
       isAlchemyPublicClient = False,
       getBalance = (\<lambda>account. Inl TransportError),
       getTokenBalances = (\<lambda>n account cursor. Inl TransportError) \<rparr>"

section \<open>The passes of the pagination loop\<close>

text \<open>
  \<open>alchemyStateAfter k\<close> is what \<open>k\<close> passes through the loop body make of the
  variables \<^verbatim>\<open>balances\<close> and \<^verbatim>\<open>pageKey\<close>, started as \<^verbatim>\<open>fetchContractBalancesWithAlchemy\<close>
  starts them and with the loop test left aside; an exception in a pass stays.
  \<open>passContinues k\<close>: pass \<open>k\<close> (counted from 0) ends without an exception and with a
  truthy cursor. \<open>cursorAfter k\<close>: the cursor of the page fetched in pass \<open>k\<close>.
\<close>

fun alchemyStateAfter ::
  "Imports \<Rightarrow> nat \<Rightarrow> Address \<Rightarrow> SplitsPublicClient \<Rightarrow> nat \<Rightarrow>
   error + (FormattedTokenBalances \<times> string option)" where
  "alchemyStateAfter env chainId account rpcPublicClient 0 = Inr (Map.empty, Some [])"
| "alchemyStateAfter env chainId account rpcPublicClient (Suc k) =
     (case alchemyStateAfter env chainId account rpcPublicClient k of
        Inl e \<Rightarrow> Inl e
      | Inr (balances, pageKey') \<Rightarrow>
          alchemyPass env chainId account rpcPublicClient k pageKey' balances)"

definition passContinues ::
  "Imports \<Rightarrow> nat \<Rightarrow> Address \<Rightarrow> SplitsPublicClient \<Rightarrow> nat \<Rightarrow> bool" where
  "passContinues env chainId account rpcPublicClient k =
     (case alchemyStateAfter env chainId account rpcPublicClient (Suc k) of
        Inl e \<Rightarrow> False
      | Inr (balances, pageKey') \<Rightarrow> truthy pageKey')"

definition cursorAfter ::
  "Imports \<Rightarrow> nat \<Rightarrow> Address \<Rightarrow> SplitsPublicClient \<Rightarrow> nat \<Rightarrow> string option" where
  "cursorAfter env chainId account rpcPublicClient k =
     (case alchemyStateAfter env chainId account rpcPublicClient (Suc k) of
        Inl e \<Rightarrow> None
      | Inr (balances, pageKey') \<Rightarrow> pageKey')"

text \<open>What a run that ends after pass \<open>n\<close> returns or throws.\<close>

definition outcomeAfter ::
  "Imports \<Rightarrow> nat \<Rightarrow> Address \<Rightarrow> SplitsPublicClient \<Rightarrow> nat \<Rightarrow> error + FormattedTokenBalances" where
  "outcomeAfter env chainId account rpcPublicClient n =
     (case alchemyStateAfter env chainId account rpcPublicClient (Suc n) of
        Inl e \<Rightarrow> Inl e
      | Inr (balances, pageKey') \<Rightarrow> Inr balances)"

definition sampleAccount :: Address where
  "sampleAccount = ''0xd8dA6BF26964aF9D7eEd9e03E53415D37aA96045''"

text \<open>
  The key under which the callback of the paginated fetcher stores a page entry: the
  checksummed contract address (a fixed string when \<^verbatim>\<open>getAddress\<close> throws, in which case
  nothing is stored).
\<close>

definition formattedAddressOf :: "Imports \<Rightarrow> AlchemyTokenBalance \<Rightarrow> Address" where
  "formattedAddressOf env balanceData =
     (case getAddress env (contractAddress balanceData) of Inl e \<Rightarrow> [] | Inr a \<Rightarrow> a)"

section \<open>Symbol and decimals of a token\<close>

text \<open>
  Symbol and decimals as both reducers find them for a token: those of the chain for the
  native sentinel, those of the metadata mapping otherwise; none when the mapping lacks
  the token, its symbol or its decimals, in which case the reducers store nothing for it.
\<close>

definition tokenMetadata :: "Imports \<Rightarrow> nat \<Rightarrow> TokenData \<Rightarrow> Address \<Rightarrow> (string \<times> nat) option" where
  "tokenMetadata env chainId tokenData token =
     (if token = zeroAddress then Some (nativeSymbol env chainId, 18)
      else (case tokenData token of
              None \<Rightarrow> None
            | Some data \<Rightarrow>
                (case (tokenSymbol data, tokenDecimals data) of
                   (Some s, Some d) \<Rightarrow> Some (s, d)
                 | _ \<Rightarrow> None)))"

section \<open>The merge engine sums per key\<close>

lemma mergeWith_apply:
  "mergeWith object sources customizer k =
     foldl (\<lambda>a src. case src k of None \<Rightarrow> a | Some s \<Rightarrow> Some (customizer a s)) (object k) sources"
  unfolding mergeWith_def
  by (induction sources arbitrary: object) (simp_all add: mergeSource_def)

lemma find_snoc:
  "List.find P (xs @ [x]) =
     (case List.find P xs of None \<Rightarrow> (if P x then Some x else None) | Some y \<Rightarrow> Some y)"
  by (induction xs) simp_all

lemma mergeFormatted_key:
  "mergeFormattedTokenBalances env bs k =
     (case List.find (\<lambda>b. b k \<noteq> None) bs of
        None \<Rightarrow> None
      | Some b0 \<Rightarrow>
          Some \<lparr> rawAmount = (\<Sum>b\<leftarrow>bs. rawAt b k),
                 formattedAmount =
                   fromBigIntToTokenValue env (\<Sum>b\<leftarrow>bs. rawAt b k) (decimals (the (b0 k))),
                 symbol = symbol (the (b0 k)),
                 decimals = decimals (the (b0 k)) \<rparr>)"
proof (induction bs rule: rev_induct)
  case Nil
  show ?case by (simp add: mergeFormattedTokenBalances_def mergeWith_apply)
next
  case (snoc b bs)
  have step: "mergeFormattedTokenBalances env (bs @ [b]) k =
      (case b k of None \<Rightarrow> mergeFormattedTokenBalances env bs k
       | Some s \<Rightarrow> Some (mergeFormattedCustomizer env (mergeFormattedTokenBalances env bs k) s))"
    by (simp add: mergeFormattedTokenBalances_def mergeWith_apply split: option.splits)
  show ?case
  proof (cases "List.find (\<lambda>b. b k \<noteq> None) bs")
    case None
    then have "\<forall>x\<in>set bs. x k = None" by (auto simp: find_None_iff)
    then have "(\<Sum>b\<leftarrow>bs. rawAt b k) = 0"
      by (induction bs) (simp_all add: rawAt_def)
    with None show ?thesis
      unfolding step snoc.IH find_snoc
      by (simp add: rawAt_def mergeFormattedCustomizer_def ZERO_def Let_def split: option.splits)
  next
    case (Some b0)
    then show ?thesis
      unfolding step snoc.IH find_snoc
      by (simp add: rawAt_def mergeFormattedCustomizer_def ZERO_def Let_def split: option.splits)
  qed
qed

lemma mergeBalances_key:
  "mergeBalances bs k =
     (case List.find (\<lambda>b. b k \<noteq> None) bs of
        None \<Rightarrow> None
      | Some b0 \<Rightarrow>
          Some \<lparr> amount = (\<Sum>b\<leftarrow>bs. amountAt b k),
                 entrySymbol = entrySymbol (the (b0 k)),
                 entryDecimals = entryDecimals (the (b0 k)) \<rparr>)"
proof (induction bs rule: rev_induct)
  case Nil
  show ?case by (simp add: mergeBalances_def mergeWith_apply)
next
  case (snoc b bs)
  have step: "mergeBalances (bs @ [b]) k =
      (case b k of None \<Rightarrow> mergeBalances bs k
       | Some s \<Rightarrow> Some (mergeBalancesCustomizer (mergeBalances bs k) s))"
    by (simp add: mergeBalances_def mergeWith_apply split: option.splits)
  show ?case
  proof (cases "List.find (\<lambda>b. b k \<noteq> None) bs")
    case None
    then have "\<forall>x\<in>set bs. x k = None" by (auto simp: find_None_iff)
    then have "(\<Sum>b\<leftarrow>bs. amountAt b k) = 0"
      by (induction bs) (simp_all add: amountAt_def)
    with None show ?thesis
      unfolding step snoc.IH find_snoc
      by (simp add: amountAt_def mergeBalancesCustomizer_def ZERO_def split: option.splits)
  next
    case (Some b0)
    then show ?thesis
      unfolding step snoc.IH find_snoc
      by (simp add: amountAt_def mergeBalancesCustomizer_def ZERO_def split: option.splits)
  qed
qed

lemma find_defined_iff:
  "(List.find (\<lambda>b. b k \<noteq> None) bs \<noteq> None) = (k \<in> (\<Union>b\<in>set bs. dom b))"
  by (auto simp: find_None_iff dom_def)

lemma mergeFormatted_dom: "dom (mergeFormattedTokenBalances env bs) = (\<Union>b\<in>set bs. dom b)"
proof (rule set_eqI)
  fix k
  have "(k \<in> dom (mergeFormattedTokenBalances env bs)) =
          (List.find (\<lambda>b. b k \<noteq> None) bs \<noteq> None)"
    by (simp add: dom_def mergeFormatted_key split: option.splits)
  then show "(k \<in> dom (mergeFormattedTokenBalances env bs)) = (k \<in> (\<Union>b\<in>set bs. dom b))"
    by (simp only: find_defined_iff)
qed

lemma mergeBalances_dom: "dom (mergeBalances bs) = (\<Union>b\<in>set bs. dom b)"
proof (rule set_eqI)
  fix k
  have "(k \<in> dom (mergeBalances bs)) = (List.find (\<lambda>b. b k \<noteq> None) bs \<noteq> None)"
    by (simp add: dom_def mergeBalances_key split: option.splits)
  then show "(k \<in> dom (mergeBalances bs)) = (k \<in> (\<Union>b\<in>set bs. dom b))"
    by (simp only: find_defined_iff)
qed

text \<open>
  C1. For every list of balance mappings, \<^verbatim>\<open>mergeFormattedTokenBalances\<close> returns a
  mapping whose keys are the union of the inputs' keys. At a key that some input has, the
  raw amount is the sum over all inputs of the key's raw amount, an input without the key
  counting as zero (\<open>rawAt\<close>); symbol and decimals are those of the first input of the
  list that has the key; the formatted amount is \<^verbatim>\<open>fromBigIntToTokenValue\<close> of the summed
  raw amount and those decimals. \<^verbatim>\<open>mergeBalances\<close> does the same on the \<^verbatim>\<open>IBalance\<close>
  shape, which has no formatted amount.
\<close>

theorem merge_sums_raw_amounts:
  "dom (mergeFormattedTokenBalances env bs) = (\<Union>b\<in>set bs. dom b) \<and>
   mergeFormattedTokenBalances env bs k =
     (case List.find (\<lambda>b. b k \<noteq> None) bs of
        None \<Rightarrow> None
      | Some b0 \<Rightarrow>
          Some \<lparr> rawAmount = (\<Sum>b\<leftarrow>bs. rawAt b k),
                 formattedAmount =
                   fromBigIntToTokenValue env (\<Sum>b\<leftarrow>bs. rawAt b k) (decimals (the (b0 k))),
                 symbol = symbol (the (b0 k)),
                 decimals = decimals (the (b0 k)) \<rparr>) \<and>
   dom (mergeBalances ibs) = (\<Union>b\<in>set ibs. dom b) \<and>
   mergeBalances ibs k =
     (case List.find (\<lambda>b. b k \<noteq> None) ibs of
        None \<Rightarrow> None
      | Some b0 \<Rightarrow>
          Some \<lparr> amount = (\<Sum>b\<leftarrow>ibs. amountAt b k),
                 entrySymbol = entrySymbol (the (b0 k)),
                 entryDecimals = entryDecimals (the (b0 k)) \<rparr>)"
  using mergeFormatted_dom [of env bs] mergeFormatted_key [of env bs k]
        mergeBalances_dom [of ibs] mergeBalances_key [of ibs k]
  by (intro conjI)

theorem merge_sums_raw_amounts_witness:
  "mergeFormattedTokenBalances sampleImports [sampleBalancesA, sampleBalancesB] usdcChecksummed =
     Some \<lparr> rawAmount = 12, formattedAmount = ''scaled'', symbol = ''USDC'', decimals = 6 \<rparr> \<and>
   mergeBalances [sampleIBalanceA, sampleIBalanceB] usdcChecksummed =
     Some \<lparr> amount = 12, entrySymbol = ''USDC'', entryDecimals = 6 \<rparr>"
  using merge_sums_raw_amounts [of sampleImports "[sampleBalancesA, sampleBalancesB]"
          usdcChecksummed "[sampleIBalanceA, sampleIBalanceB]"]
  by (simp add: sampleBalancesA_def sampleBalancesB_def sampleIBalanceA_def sampleIBalanceB_def
        sampleImports_def rawAt_def amountAt_def usdcChecksummed_def daiChecksummed_def)

section \<open>Merging does not depend on order or grouping\<close>

lemma sum_list_perm:
  fixes f :: "'a \<Rightarrow> int"
  assumes "mset xs = mset ys"
  shows "(\<Sum>x\<leftarrow>xs. f x) = (\<Sum>x\<leftarrow>ys. f x)"
proof -
  have "(\<Sum>x\<leftarrow>xs. f x) = sum_mset (image_mset f (mset xs))"
    by (metis mset_map sum_mset_sum_list)
  also have "\<dots> = sum_mset (image_mset f (mset ys))" using assms by simp
  also have "\<dots> = (\<Sum>x\<leftarrow>ys. f x)" by (metis mset_map sum_mset_sum_list)
  finally show ?thesis .
qed

lemma mergeFormatted_perm:
  assumes agree: "\<forall>b\<in>set bs. \<forall>b'\<in>set bs. \<forall>k e e'. b k = Some e \<longrightarrow> b' k = Some e' \<longrightarrow>
                    symbol e = symbol e' \<and> decimals e = decimals e'"
    and perm: "mset bs' = mset bs"
  shows "mergeFormattedTokenBalances env bs' = mergeFormattedTokenBalances env bs"
proof (rule ext)
  fix k
  let ?P = "\<lambda>b :: FormattedTokenBalances. b k \<noteq> None"
  have sets: "set bs' = set bs" using perm by (rule mset_eq_setD)
  have sums: "(\<Sum>b\<leftarrow>bs'. rawAt b k) = (\<Sum>b\<leftarrow>bs. rawAt b k)" using perm by (rule sum_list_perm)
  show "mergeFormattedTokenBalances env bs' k = mergeFormattedTokenBalances env bs k"
  proof (cases "List.find ?P bs")
    case None
    then have "List.find ?P bs' = None" using sets by (simp add: find_None_iff)
    with None show ?thesis by (simp add: mergeFormatted_key)
  next
    case (Some b0)
    then have b0: "b0 \<in> set bs" "b0 k \<noteq> None" by (auto simp: find_Some_iff)
    have "List.find ?P bs' \<noteq> None" using b0 sets by (auto simp: find_None_iff)
    then obtain b1 where f1: "List.find ?P bs' = Some b1" by auto
    then have b1: "b1 \<in> set bs" "b1 k \<noteq> None" using sets by (auto simp: find_Some_iff)
    from b0 b1 agree have "symbol (the (b1 k)) = symbol (the (b0 k)) \<and>
        decimals (the (b1 k)) = decimals (the (b0 k))"
      by fastforce
    with Some f1 sums show ?thesis by (simp add: mergeFormatted_key)
  qed
qed

lemma mergeWith_keyStep:
  "mergeWith object sources customizer k =
     foldl (\<lambda>a s. case s of None \<Rightarrow> a | Some v \<Rightarrow> Some (customizer a v)) (object k)
       (map (\<lambda>b. b k) sources)"
  unfolding mergeWith_def
  by (induction sources arbitrary: object) (simp_all add: mergeSource_def)

lemma formatted_absorb:
  fixes env :: Imports
  defines "step \<equiv> (\<lambda>a s. case s of None \<Rightarrow> a | Some v \<Rightarrow> Some (mergeFormattedCustomizer env a v))"
  shows "foldl step a xs = step a (foldl step None xs)"
proof (induction xs rule: rev_induct)
  case Nil
  show ?case by (simp add: step_def)
next
  case (snoc x xs)
  show ?case
    by (simp add: snoc.IH)
       (auto simp: step_def mergeFormattedCustomizer_def Let_def ZERO_def add.assoc
             split: option.splits)
qed

lemma mergeFormatted_regroup:
  "mergeFormattedTokenBalances env (map (mergeFormattedTokenBalances env) bss) =
     mergeFormattedTokenBalances env (concat bss)"
proof (rule ext)
  fix k
  define step where
    "step = (\<lambda>a s. case s of None \<Rightarrow> a | Some v \<Rightarrow> Some (mergeFormattedCustomizer env a v))"
  have key: "\<And>bs. mergeFormattedTokenBalances env bs k = foldl step None (map (\<lambda>b. b k) bs)"
    by (simp add: mergeFormattedTokenBalances_def mergeWith_keyStep step_def)
  show "mergeFormattedTokenBalances env (map (mergeFormattedTokenBalances env) bss) k =
     mergeFormattedTokenBalances env (concat bss) k"
  proof (induction bss rule: rev_induct)
    case Nil
    show ?case by simp
  next
    case (snoc g bss)
    have "mergeFormattedTokenBalances env (map (mergeFormattedTokenBalances env) (bss @ [g])) k =
        step (mergeFormattedTokenBalances env (map (mergeFormattedTokenBalances env) bss) k)
          (mergeFormattedTokenBalances env g k)"
      by (simp add: key)
    also have "\<dots> = step (mergeFormattedTokenBalances env (concat bss) k)
          (foldl step None (map (\<lambda>b. b k) g))"
      using snoc.IH by (simp add: key)
    also have "\<dots> = foldl step (mergeFormattedTokenBalances env (concat bss) k) (map (\<lambda>b. b k) g)"
      unfolding step_def by (rule formatted_absorb [symmetric])
    also have "\<dots> = mergeFormattedTokenBalances env (concat (bss @ [g])) k"
      by (simp add: key)
    finally show ?case .
  qed
qed

text \<open>
  C2. Let the inputs agree on symbol and decimals wherever two of them have the same key.
  Then \<^verbatim>\<open>mergeFormattedTokenBalances\<close> gives the same mapping on every permutation of the
  input list, and merging in groups (each group merged first, then the intermediate
  results merged) gives the same mapping as merging all inputs at once, whatever the
  grouping and the order of the inputs within it.
\<close>

theorem merge_commutative_associative:
  assumes "\<forall>b\<in>set bs. \<forall>b'\<in>set bs. \<forall>k e e'. b k = Some e \<longrightarrow> b' k = Some e' \<longrightarrow>
             symbol e = symbol e' \<and> decimals e = decimals e'"
  shows "(mset bs' = mset bs \<longrightarrow>
            mergeFormattedTokenBalances env bs' = mergeFormattedTokenBalances env bs) \<and>
         (mset (concat bss) = mset bs \<longrightarrow>
            mergeFormattedTokenBalances env (map (mergeFormattedTokenBalances env) bss) =
              mergeFormattedTokenBalances env bs)"
  using mergeFormatted_perm [OF assms, of bs' env] mergeFormatted_perm [OF assms, of "concat bss" env]
        mergeFormatted_regroup [of env bss]
  by simp

theorem merge_commutative_associative_witness:
  "mergeFormattedTokenBalances sampleImports [sampleBalancesB, sampleBalancesA] =
     mergeFormattedTokenBalances sampleImports [sampleBalancesA, sampleBalancesB] \<and>
   mergeFormattedTokenBalances sampleImports
       [mergeFormattedTokenBalances sampleImports [sampleBalancesB],
        mergeFormattedTokenBalances sampleImports [sampleBalancesA]] =
     mergeFormattedTokenBalances sampleImports [sampleBalancesA, sampleBalancesB]"
proof -
  have agree: "\<forall>b\<in>set [sampleBalancesA, sampleBalancesB].
      \<forall>b'\<in>set [sampleBalancesA, sampleBalancesB]. \<forall>k e e'.
        b k = Some e \<longrightarrow> b' k = Some e' \<longrightarrow> symbol e = symbol e' \<and> decimals e = decimals e'"
    by (auto simp: sampleBalancesA_def sampleBalancesB_def usdcChecksummed_def daiChecksummed_def
          split: if_splits)
  show ?thesis
    using merge_commutative_associative [OF agree, of "[sampleBalancesB, sampleBalancesA]"
            sampleImports "[ [sampleBalancesB], [sampleBalancesA] ]"]
    by simp
qed

section \<open>Runs of a storing callback over a list\<close>

lemma forEachIndexed_append:
  "forEachIndexed cb i (xs @ ys) s =
     (case forEachIndexed cb i xs s of
        Inl e \<Rightarrow> Inl e
      | Inr s' \<Rightarrow> forEachIndexed cb (i + length xs) ys s')"
  by (induction xs arbitrary: i s) (auto split: sum.splits)

lemma stores_step:
  assumes "stores key cb"
  shows "cb x i s =
          (case entryAt key cb x i of
             Inl e \<Rightarrow> Inl e
           | Inr None \<Rightarrow> Inr s
           | Inr (Some v) \<Rightarrow> Inr (s(key x \<mapsto> v)))"
  using assms unfolding stores_def by blast

lemma forEachIndexed_untouched:
  assumes st: "stores key cb"
  shows "forEachIndexed cb i xs s = Inr out \<Longrightarrow>
         (\<forall>j<length xs. key (xs ! j) = k \<longrightarrow> entryAt key cb (xs ! j) (i + j) = Inr None) \<Longrightarrow>
         out k = s k"
proof (induction xs arbitrary: i s)
  case Nil
  then show ?case by simp
next
  case (Cons x xs)
  from Cons.prems(1) obtain s1 where s1: "cb x i s = Inr s1"
    and rest: "forEachIndexed cb (Suc i) xs s1 = Inr out"
    by (auto split: sum.splits)
  have "\<forall>j<length xs. key (xs ! j) = k \<longrightarrow> entryAt key cb (xs ! j) (Suc i + j) = Inr None"
  proof (intro allI impI)
    fix j assume "j < length xs" "key (xs ! j) = k"
    with Cons.prems(2) [rule_format, of "Suc j"] show "entryAt key cb (xs ! j) (Suc i + j) = Inr None"
      by simp
  qed
  with Cons.IH [OF rest] have "out k = s1 k" by blast
  moreover have "s1 k = s k"
  proof (cases "key x = k")
    case True
    with Cons.prems(2) [rule_format, of 0] have "entryAt key cb x i = Inr None" by simp
    with s1 show ?thesis by (simp add: stores_step [OF st])
  next
    case False
    with s1 show ?thesis
      by (auto simp: stores_step [OF st] split: sum.splits option.splits)
  qed
  ultimately show ?case by simp
qed

lemma forEachIndexed_last_store:
  assumes st: "stores key cb"
  shows "forEachIndexed cb i xs s = Inr out \<Longrightarrow> j < length xs \<Longrightarrow> key (xs ! j) = k \<Longrightarrow>
         entryAt key cb (xs ! j) (i + j) = Inr (Some v) \<Longrightarrow>
         (\<forall>j'. j < j' \<and> j' < length xs \<and> key (xs ! j') = k \<longrightarrow>
               entryAt key cb (xs ! j') (i + j') = Inr None) \<Longrightarrow>
         out k = Some v"
proof (induction xs arbitrary: i s j)
  case Nil
  then show ?case by simp
next
  case (Cons x xs)
  from Cons.prems(1) obtain s1 where s1: "cb x i s = Inr s1"
    and rest: "forEachIndexed cb (Suc i) xs s1 = Inr out"
    by (auto split: sum.splits)
  show ?case
  proof (cases j)
    case 0
    with Cons.prems have e: "entryAt key cb x i = Inr (Some v)" and kx: "key x = k" by simp_all
    with s1 have "s1 k = Some v" by (auto simp: stores_step [OF st])
    moreover have "\<forall>j'<length xs. key (xs ! j') = k \<longrightarrow>
        entryAt key cb (xs ! j') (Suc i + j') = Inr None"
    proof (intro allI impI)
      fix j' assume "j' < length xs" "key (xs ! j') = k"
      with Cons.prems(5) [rule_format, of "Suc j'"] 0
      show "entryAt key cb (xs ! j') (Suc i + j') = Inr None" by simp
    qed
    ultimately show ?thesis
      using forEachIndexed_untouched [OF st rest] by simp
  next
    case (Suc j0)
    have later: "\<forall>j'. j0 < j' \<and> j' < length xs \<and> key (xs ! j') = k \<longrightarrow>
        entryAt key cb (xs ! j') (Suc i + j') = Inr None"
    proof (intro allI impI)
      fix j' assume "j0 < j' \<and> j' < length xs \<and> key (xs ! j') = k"
      with Cons.prems(5) [rule_format, of "Suc j'"] Suc
      show "entryAt key cb (xs ! j') (Suc i + j') = Inr None" by simp
    qed
    from Cons.prems Suc have "j0 < length xs" "key (xs ! j0) = k"
      "entryAt key cb (xs ! j0) (Suc i + j0) = Inr (Some v)" by simp_all
    from Cons.IH [OF rest this later] show ?thesis .
  qed
qed

lemma forEachIndexed_returns:
  assumes st: "stores key cb"
  shows "(\<forall>j<length xs. \<exists>r. entryAt key cb (xs ! j) (i + j) = Inr r) \<Longrightarrow>
         \<exists>out. forEachIndexed cb i xs s = Inr out"
proof (induction xs arbitrary: i s)
  case Nil
  show ?case by simp
next
  case (Cons x xs)
  from Cons.prems [rule_format, of 0] obtain r where r: "entryAt key cb x i = Inr r" by auto
  then obtain s1 where s1: "cb x i s = Inr s1"
    by (cases r) (auto simp: stores_step [OF st])
  have "\<forall>j<length xs. \<exists>r. entryAt key cb (xs ! j) (Suc i + j) = Inr r"
  proof (intro allI impI)
    fix j assume "j < length xs"
    with Cons.prems [rule_format, of "Suc j"] show "\<exists>r. entryAt key cb (xs ! j) (Suc i + j) = Inr r"
      by simp
  qed
  from Cons.IH [OF this, of s1] s1 show ?case by simp
qed

lemma forEachIndexed_throws:
  assumes st: "stores key cb"
  shows "j < length xs \<Longrightarrow> entryAt key cb (xs ! j) (i + j) = Inl e \<Longrightarrow>
         (\<forall>j'<j. \<exists>r. entryAt key cb (xs ! j') (i + j') = Inr r) \<Longrightarrow>
         forEachIndexed cb i xs s = Inl e"
proof (induction xs arbitrary: i s j)
  case Nil
  then show ?case by simp
next
  case (Cons x xs)
  show ?case
  proof (cases j)
    case 0
    with Cons.prems have "entryAt key cb x i = Inl e" by simp
    then have "cb x i s = Inl e" by (subst stores_step [OF st]) simp
    then show ?thesis by simp
  next
    case (Suc j0)
    from Cons.prems(3) [rule_format, of 0] Suc obtain r where "entryAt key cb x i = Inr r" by auto
    then obtain s1 where s1: "cb x i s = Inr s1"
      by (cases r) (auto simp: stores_step [OF st])
    have "\<forall>j'<j0. \<exists>r. entryAt key cb (xs ! j') (Suc i + j') = Inr r"
    proof (intro allI impI)
      fix j' assume "j' < j0"
      with Cons.prems(3) [rule_format, of "Suc j'"] Suc
      show "\<exists>r. entryAt key cb (xs ! j') (Suc i + j') = Inr r" by simp
    qed
    moreover from Cons.prems Suc have "j0 < length xs" "entryAt key cb (xs ! j0) (Suc i + j0) = Inl e"
      by simp_all
    ultimately have "forEachIndexed cb (Suc i) xs s1 = Inl e" using Cons.IH by blast
    with s1 show ?thesis by simp
  qed
qed

lemma forEachIndexed_origin:
  assumes st: "stores key cb"
  shows "forEachIndexed cb i xs s = Inr out \<Longrightarrow> out k = Some v \<Longrightarrow>
         s k = Some v \<or> (\<exists>j<length xs. key (xs ! j) = k \<and> entryAt key cb (xs ! j) (i + j) = Inr (Some v))"
proof (induction xs arbitrary: i s)
  case Nil
  then show ?case by simp
next
  case (Cons x xs)
  from Cons.prems(1) obtain s1 where s1: "cb x i s = Inr s1"
    and rest: "forEachIndexed cb (Suc i) xs s1 = Inr out"
    by (auto split: sum.splits)
  from Cons.IH [OF rest Cons.prems(2)]
  consider "s1 k = Some v"
    | j where "j < length xs" "key (xs ! j) = k" "entryAt key cb (xs ! j) (Suc i + j) = Inr (Some v)"
    by blast
  then show ?case
  proof cases
    case 1
    with s1 have "s k = Some v \<or> (key x = k \<and> entryAt key cb x i = Inr (Some v))"
      by (auto simp: stores_step [OF st] split: sum.splits option.splits if_splits)
    then show ?thesis by auto
  next
    case 2
    then have "Suc j < length (x # xs) \<and> key ((x # xs) ! Suc j) = k \<and>
        entryAt key cb ((x # xs) ! Suc j) (i + Suc j) = Inr (Some v)" by simp
    then show ?thesis by blast
  qed
qed

lemma forEachIndexed_keeps:
  assumes st: "stores key cb"
  shows "forEachIndexed cb i xs s = Inr out \<Longrightarrow>
         s k \<noteq> None \<or> (\<exists>j<length xs. key (xs ! j) = k \<and> (\<exists>v. entryAt key cb (xs ! j) (i + j) = Inr (Some v))) \<Longrightarrow>
         out k \<noteq> None"
proof (induction xs arbitrary: i s)
  case Nil
  then show ?case by simp
next
  case (Cons x xs)
  from Cons.prems(1) obtain s1 where s1: "cb x i s = Inr s1"
    and rest: "forEachIndexed cb (Suc i) xs s1 = Inr out"
    by (auto split: sum.splits)
  have "s1 k \<noteq> None \<or> (\<exists>j<length xs. key (xs ! j) = k \<and> (\<exists>v. entryAt key cb (xs ! j) (Suc i + j) = Inr (Some v)))"
  proof (cases "s k \<noteq> None")
    case True
    with s1 show ?thesis
      by (auto simp: stores_step [OF st] split: sum.splits option.splits if_splits)
  next
    case False
    with Cons.prems(2) obtain j v where j: "j < length (x # xs)" "key ((x # xs) ! j) = k"
      "entryAt key cb ((x # xs) ! j) (i + j) = Inr (Some v)" by blast
    show ?thesis
    proof (cases j)
      case 0
      with j s1 show ?thesis by (auto simp: stores_step [OF st])
    next
      case (Suc j0)
      with j have "j0 < length xs \<and> key (xs ! j0) = k \<and> entryAt key cb (xs ! j0) (Suc i + j0) = Inr (Some v)"
        by simp
      then show ?thesis by blast
    qed
  qed
  from Cons.IH [OF rest this] show ?case .
qed

lemma balanceCallback_stores:
  "stores (\<lambda>t. t) (balanceCallback env chainId tokenData multicallResponse)"
  unfolding stores_def entryAt_def balanceCallback_def
  by (auto split: sum.splits option.splits)

lemma splitBalanceCallback_stores:
  "stores (\<lambda>t. t) (splitBalanceCallback env type chainId tokenData multicallResponse)"
  unfolding stores_def entryAt_def splitBalanceCallback_def splitBalanceStore_def
  by (auto split: sum.splits option.splits prod.splits)

lemma tokenDataCallback_stores:
  "stores (\<lambda>t. t) (tokenDataCallback multicallResponse)"
  unfolding stores_def entryAt_def tokenDataCallback_def
  by (auto split: sum.splits option.splits)

section \<open>What the reducers store\<close>

lemma forEachIndexed_each_returns:
  assumes st: "stores key cb"
  shows "forEachIndexed cb i xs s = Inr out \<Longrightarrow> j < length xs \<Longrightarrow>
         \<exists>r. entryAt key cb (xs ! j) (i + j) = Inr r"
proof (induction xs arbitrary: i s j)
  case Nil
  then show ?case by simp
next
  case (Cons x xs)
  from Cons.prems(1) obtain s1 where s1: "cb x i s = Inr s1"
    and rest: "forEachIndexed cb (Suc i) xs s1 = Inr out"
    by (auto split: sum.splits)
  show ?case
  proof (cases j)
    case 0
    from s1 have "\<exists>r. entryAt key cb x i = Inr r"
      by (subst (asm) stores_step [OF st]) (auto split: sum.splits)
    with 0 show ?thesis by simp
  next
    case (Suc j0)
    with Cons.prems have "j0 < length xs" by simp
    from Cons.IH [OF rest this] Suc show ?thesis by simp
  qed
qed

lemma forEachIndexed_same_at_key:
  assumes st: "stores key cb" and st': "stores key cb'"
    and same: "\<And>x j. key x = k \<Longrightarrow> entryAt key cb' x j = entryAt key cb x j"
  shows "forEachIndexed cb i xs s = Inr out \<Longrightarrow> forEachIndexed cb' i xs s' = Inr out' \<Longrightarrow>
         s' k = s k \<Longrightarrow> out' k = out k"
proof (induction xs arbitrary: i s s')
  case Nil
  then show ?case by simp
next
  case (Cons x xs)
  from Cons.prems(1) obtain s1 where s1: "cb x i s = Inr s1"
    and rest: "forEachIndexed cb (Suc i) xs s1 = Inr out"
    by (auto split: sum.splits)
  from Cons.prems(2) obtain s1' where s1': "cb' x i s' = Inr s1'"
    and rest': "forEachIndexed cb' (Suc i) xs s1' = Inr out'"
    by (auto split: sum.splits)
  have "s1' k = s1 k"
  proof (cases "key x = k")
    case True
    from s1 have a: "(case entryAt key cb x i of Inl e \<Rightarrow> Inl e | Inr None \<Rightarrow> Inr s
        | Inr (Some v) \<Rightarrow> Inr (s(key x \<mapsto> v))) = Inr s1"
      by (subst (asm) stores_step [OF st])
    from s1' have "(case entryAt key cb' x i of Inl e \<Rightarrow> Inl e | Inr None \<Rightarrow> Inr s'
        | Inr (Some v) \<Rightarrow> Inr (s'(key x \<mapsto> v))) = Inr s1'"
      by (subst (asm) stores_step [OF st'])
    with a same [OF True, of i] Cons.prems(3) True show ?thesis
      by (auto split: sum.splits option.splits)
  next
    case False
    from s1 have a: "(case entryAt key cb x i of Inl e \<Rightarrow> Inl e | Inr None \<Rightarrow> Inr s
        | Inr (Some v) \<Rightarrow> Inr (s(key x \<mapsto> v))) = Inr s1"
      by (subst (asm) stores_step [OF st])
    from s1' have "(case entryAt key cb' x i of Inl e \<Rightarrow> Inl e | Inr None \<Rightarrow> Inr s'
        | Inr (Some v) \<Rightarrow> Inr (s'(key x \<mapsto> v))) = Inr s1'"
      by (subst (asm) stores_step [OF st'])
    with a False Cons.prems(3) show ?thesis
      by (auto split: sum.splits option.splits)
  qed
  from Cons.IH [OF rest rest' this] show ?case .
qed

lemma balance_entry:
  "entryAt (\<lambda>t. t) (balanceCallback env chainId tokenData R) t i =
     (if length R \<le> i then Inl TypeError
      else case asBigInt (R ! i) of
        Inl e \<Rightarrow> Inl e
      | Inr None \<Rightarrow> Inr None
      | Inr (Some n) \<Rightarrow>
          if t = zeroAddress then
            Inr (Some \<lparr> rawAmount = n, formattedAmount = fromBigIntToTokenValue env n 18,
                        symbol = nativeSymbol env chainId, decimals = 18 \<rparr>)
          else
            (case tokenData t of
               None \<Rightarrow> Inr None
             | Some data \<Rightarrow>
                 (case tokenSymbol data of
                    None \<Rightarrow> Inr None
                  | Some s \<Rightarrow>
                      (case tokenDecimals data of
                         None \<Rightarrow> Inr None
                       | Some d \<Rightarrow>
                           Inr (Some \<lparr> rawAmount = n,
                                       formattedAmount = fromBigIntToTokenValue env n d,
                                       symbol = s, decimals = d \<rparr>)))))"
  unfolding entryAt_def balanceCallback_def
  by (auto split: sum.splits option.splits)

lemma split_entry:
  "entryAt (\<lambda>t. t) (splitBalanceCallback env type chainId tokenData R) t i =
     (if length R \<le> i then Inl TypeError
      else case (if type = splitV1 then
                   (case asBigInt (R ! i) of Inl e \<Rightarrow> Inl e | Inr b \<Rightarrow> Inr b)
                 else
                   (case destructurePair (R ! i) of
                      Inl e \<Rightarrow> Inl e
                    | Inr (Some sb, Some wb) \<Rightarrow> Inr (Some (sb + wb))
                    | Inr _ \<Rightarrow> Inr None)) of
        Inl e \<Rightarrow> Inl e
      | Inr None \<Rightarrow> Inr None
      | Inr (Some n) \<Rightarrow>
          if \<not> 2 < n then Inr None
          else if t = zeroAddress then
            Inr (Some \<lparr> rawAmount = n, formattedAmount = fromBigIntToTokenValue env n 18,
                        symbol = nativeSymbol env chainId, decimals = 18 \<rparr>)
          else
            (case tokenData t of
               None \<Rightarrow> Inr None
             | Some data \<Rightarrow>
                 (case tokenSymbol data of
                    None \<Rightarrow> Inr None
                  | Some s \<Rightarrow>
                      (case tokenDecimals data of
                         None \<Rightarrow> Inr None
                       | Some d \<Rightarrow>
                           Inr (Some \<lparr> rawAmount = n,
                                       formattedAmount = fromBigIntToTokenValue env n d,
                                       symbol = s, decimals = d \<rparr>)))))"
  unfolding entryAt_def splitBalanceCallback_def splitBalanceStore_def
  by (auto split: sum.splits option.splits prod.splits)

lemma asBigInt_Some: "asBigInt r = Inr (Some n) \<longleftrightarrow> r = BigIntResult n"
  by (cases r) auto

lemma asBigInt_None: "asBigInt r = Inr None \<longleftrightarrow> r = Undefined"
  by (cases r) auto

lemma destructurePair_Inr: "destructurePair r = Inr (a, c) \<longleftrightarrow> r = TupleResult a c"
  by (cases r) auto

lemma forEachIndexed_dom_iff:
  assumes st: "stores key cb" and run: "forEachIndexed cb i xs s = Inr out"
  shows "(out k \<noteq> None) =
         (s k \<noteq> None \<or>
          (\<exists>j<length xs. key (xs ! j) = k \<and> (\<exists>v. entryAt key cb (xs ! j) (i + j) = Inr (Some v))))"
proof
  assume "out k \<noteq> None"
  then obtain v where "out k = Some v" by auto
  from forEachIndexed_origin [OF st run this]
  show "s k \<noteq> None \<or>
        (\<exists>j<length xs. key (xs ! j) = k \<and> (\<exists>v. entryAt key cb (xs ! j) (i + j) = Inr (Some v)))"
    by auto
next
  assume "s k \<noteq> None \<or>
          (\<exists>j<length xs. key (xs ! j) = k \<and> (\<exists>v. entryAt key cb (xs ! j) (i + j) = Inr (Some v)))"
  with forEachIndexed_keeps [OF st run] show "out k \<noteq> None" by blast
qed

lemma balance_run_length:
  assumes "processBalanceMulticallResponse env chainId T tokenData R balances = Inr out"
  shows "length T \<le> length R"
proof (rule ccontr)
  assume "\<not> length T \<le> length R"
  then have lt: "length R < length T" by simp
  from forEachIndexed_each_returns [OF balanceCallback_stores
      assms [unfolded processBalanceMulticallResponse_def] lt]
  show False by (simp add: balance_entry)
qed

lemma split_run_length:
  assumes "processSplitBalanceMulticallResponse env type chainId T tokenData R balances = Inr out"
  shows "length T \<le> length R"
proof (rule ccontr)
  assume "\<not> length T \<le> length R"
  then have lt: "length R < length T" by simp
  from forEachIndexed_each_returns [OF splitBalanceCallback_stores
      assms [unfolded processSplitBalanceMulticallResponse_def] lt]
  show False by (simp add: split_entry)
qed

lemma balance_entry_Some_iff:
  assumes "i < length R"
    and "t = zeroAddress \<or>
         (\<exists>data s d. tokenData t = Some data \<and> tokenSymbol data = Some s \<and> tokenDecimals data = Some d)"
  shows "(\<exists>v. entryAt (\<lambda>t. t) (balanceCallback env chainId tokenData R) t i = Inr (Some v)) =
         (\<exists>n. R ! i = BigIntResult n)"
  using assms by (cases "R ! i") (auto simp: balance_entry)

lemma splitV1_entry_Some_iff:
  assumes "i < length R"
    and "t = zeroAddress \<or>
         (\<exists>data s d. tokenData t = Some data \<and> tokenSymbol data = Some s \<and> tokenDecimals data = Some d)"
  shows "(\<exists>v. entryAt (\<lambda>t. t) (splitBalanceCallback env splitV1 chainId tokenData R) t i = Inr (Some v)) =
         (\<exists>n. R ! i = BigIntResult n \<and> 2 < n)"
  using assms by (cases "R ! i") (auto simp: split_entry)

lemma splitV2_entry_Some_iff:
  assumes "i < length R"
    and "t = zeroAddress \<or>
         (\<exists>data s d. tokenData t = Some data \<and> tokenSymbol data = Some s \<and> tokenDecimals data = Some d)"
  shows "(\<exists>v. entryAt (\<lambda>t. t) (splitBalanceCallback env splitV2 chainId tokenData R) t i = Inr (Some v)) =
         (\<exists>a c. R ! i = TupleResult (Some a) (Some c) \<and> 2 < a + c)"
  using assms by (cases "R ! i") (auto simp: split_entry split: option.splits)

lemma split_entry_above_dust:
  "entryAt (\<lambda>t. t) (splitBalanceCallback env type chainId tokenData R) t i = Inr (Some v) \<Longrightarrow>
   2 < rawAmount v"
  by (auto simp: split_entry split: if_splits sum.splits option.splits prod.splits)

lemmas sample_addresses =
  zeroAddress_def usdcChecksummed_def daiChecksummed_def wethChecksummed_def usdcLower_def

lemmas reducer_defs =
  processBalanceMulticallResponse_def processSplitBalanceMulticallResponse_def
  balanceCallback_def splitBalanceCallback_def splitBalanceStore_def nativeSymbol_def

lemma balance_stores_iff:
  assumes "i < length R"
  shows "(\<exists>v. entryAt (\<lambda>t. t) (balanceCallback env chainId tokenData R) t i = Inr (Some v)) =
         ((t = zeroAddress \<or>
           (\<exists>data s d. tokenData t = Some data \<and> tokenSymbol data = Some s \<and>
                        tokenDecimals data = Some d)) \<and>
          (\<exists>n. R ! i = BigIntResult n))"
  using assms by (cases "R ! i") (auto simp: balance_entry split: option.splits)

lemma splitV1_stores_iff:
  assumes "i < length R"
  shows "(\<exists>v. entryAt (\<lambda>t. t) (splitBalanceCallback env splitV1 chainId tokenData R) t i =
               Inr (Some v)) =
         ((t = zeroAddress \<or>
           (\<exists>data s d. tokenData t = Some data \<and> tokenSymbol data = Some s \<and>
                        tokenDecimals data = Some d)) \<and>
          (\<exists>n. R ! i = BigIntResult n \<and> 2 < n))"
  using assms by (cases "R ! i") (auto simp: split_entry split: option.splits)

lemma splitV2_stores_iff:
  assumes "i < length R"
  shows "(\<exists>v. entryAt (\<lambda>t. t) (splitBalanceCallback env splitV2 chainId tokenData R) t i =
               Inr (Some v)) =
         ((t = zeroAddress \<or>
           (\<exists>data s d. tokenData t = Some data \<and> tokenSymbol data = Some s \<and>
                        tokenDecimals data = Some d)) \<and>
          (\<exists>a c. R ! i = TupleResult (Some a) (Some c) \<and> 2 < a + c))"
  using assms by (cases "R ! i") (auto simp: split_entry split: option.splits)

lemma balance_run_returns:
  assumes len: "length R = length T"
    and typed: "\<forall>i<length R. R ! i = Undefined \<or> (\<exists>n. R ! i = BigIntResult n)"
  shows "\<exists>out. forEachIndexed (balanceCallback env chainId tokenData R) 0 T balances = Inr out"
proof (rule forEachIndexed_returns [OF balanceCallback_stores], intro allI impI)
  fix j assume "j < length T"
  with len typed have "j < length R" "R ! j = Undefined \<or> (\<exists>n. R ! j = BigIntResult n)" by auto
  then show "\<exists>r. entryAt (\<lambda>t. t) (balanceCallback env chainId tokenData R) (T ! j) (0 + j) = Inr r"
    by (auto simp: balance_entry split: option.splits)
qed

lemma splitV1_run_returns:
  assumes len: "length R = length T"
    and typed: "\<forall>i<length R. R ! i = Undefined \<or> (\<exists>n. R ! i = BigIntResult n)"
  shows "\<exists>out. forEachIndexed (splitBalanceCallback env splitV1 chainId tokenData R) 0 T balances =
               Inr out"
proof (rule forEachIndexed_returns [OF splitBalanceCallback_stores], intro allI impI)
  fix j assume "j < length T"
  with len typed have "j < length R" "R ! j = Undefined \<or> (\<exists>n. R ! j = BigIntResult n)" by auto
  then show "\<exists>r. entryAt (\<lambda>t. t) (splitBalanceCallback env splitV1 chainId tokenData R) (T ! j)
                  (0 + j) = Inr r"
    by (auto simp: split_entry split: option.splits)
qed

lemma splitV2_run_returns:
  assumes len: "length R = length T"
    and typed: "\<forall>i<length R. \<exists>a c. R ! i = TupleResult a c"
  shows "\<exists>out. forEachIndexed (splitBalanceCallback env splitV2 chainId tokenData R) 0 T balances =
               Inr out"
proof (rule forEachIndexed_returns [OF splitBalanceCallback_stores], intro allI impI)
  fix j assume "j < length T"
  with len typed obtain a c where "j < length R" "R ! j = TupleResult a c" by auto
  then show "\<exists>r. entryAt (\<lambda>t. t) (splitBalanceCallback env splitV2 chainId tokenData R) (T ! j)
                  (0 + j) = Inr r"
    by (auto simp: split_entry split: option.splits)
qed

lemma split_run_above_dust:
  assumes run: "forEachIndexed (splitBalanceCallback env type chainId tokenData R) 0 T Map.empty =
                Inr out"
  shows "\<forall>t e. out t = Some e \<longrightarrow> 2 < rawAmount e"
proof (intro allI impI)
  fix t e assume "out t = Some e"
  from forEachIndexed_origin [OF splitBalanceCallback_stores run this]
  show "2 < rawAmount e" by (auto dest: split_entry_above_dust)
qed

text \<open>
  C3, as amended. Let the result list have the length of the token list, and start the
  reducers on the empty mapping. The split reducer returns, and its output has an entry
  for a token exactly when the token has metadata (it is the native sentinel, or the
  metadata mapping holds its symbol and decimals) and some index of the list holds the
  token with a raw amount above 2: for splitV1, on results that are each a bigint or
  undefined, the amount is the result; for splitV2, on results that are each a pair, it
  is the sum of the two components, both defined. No entry of a split output has a raw
  amount of 2 or less. The account reducer, on results that are each a bigint or
  undefined, returns, and its output has an entry for a token exactly when the token has
  metadata and some index holds it with a defined result, whatever the amount, zero
  included. A splitV2 result that is undefined as a whole is left aside here.
\<close>

theorem split_dust_filter:
  assumes len: "length R = length T"
  shows "((\<forall>i<length R. R ! i = Undefined \<or> (\<exists>n. R ! i = BigIntResult n)) \<longrightarrow>
            (\<exists>out. processSplitBalanceMulticallResponse env splitV1 chainId T tokenData R
                      Map.empty = Inr out \<and>
               (\<forall>t. (out t \<noteq> None) =
                     ((t = zeroAddress \<or>
                       (\<exists>data s d. tokenData t = Some data \<and> tokenSymbol data = Some s \<and>
                                    tokenDecimals data = Some d)) \<and>
                      (\<exists>i<length T. T ! i = t \<and> (\<exists>n. R ! i = BigIntResult n \<and> 2 < n)))) \<and>
               (\<forall>t e. out t = Some e \<longrightarrow> 2 < rawAmount e)) \<and>
            (\<exists>out. processBalanceMulticallResponse env chainId T tokenData R Map.empty = Inr out \<and>
               (\<forall>t. (out t \<noteq> None) =
                     ((t = zeroAddress \<or>
                       (\<exists>data s d. tokenData t = Some data \<and> tokenSymbol data = Some s \<and>
                                    tokenDecimals data = Some d)) \<and>
                      (\<exists>i<length T. T ! i = t \<and> (\<exists>n. R ! i = BigIntResult n)))))) \<and>
         ((\<forall>i<length R. \<exists>a c. R ! i = TupleResult a c) \<longrightarrow>
            (\<exists>out. processSplitBalanceMulticallResponse env splitV2 chainId T tokenData R
                      Map.empty = Inr out \<and>
               (\<forall>t. (out t \<noteq> None) =
                     ((t = zeroAddress \<or>
                       (\<exists>data s d. tokenData t = Some data \<and> tokenSymbol data = Some s \<and>
                                    tokenDecimals data = Some d)) \<and>
                      (\<exists>i<length T. T ! i = t \<and>
                         (\<exists>a c. R ! i = TupleResult (Some a) (Some c) \<and> 2 < a + c)))) \<and>
               (\<forall>t e. out t = Some e \<longrightarrow> 2 < rawAmount e)))"
proof (intro conjI impI)
  assume typed: "\<forall>i<length R. R ! i = Undefined \<or> (\<exists>n. R ! i = BigIntResult n)"
  from splitV1_run_returns [OF len typed]
  obtain out where run: "forEachIndexed (splitBalanceCallback env splitV1 chainId tokenData R) 0 T
      Map.empty = Inr out" by blast
  have ent: "\<And>i t. i < length T \<Longrightarrow>
      (\<exists>v. entryAt (\<lambda>t. t) (splitBalanceCallback env splitV1 chainId tokenData R) t i =
            Inr (Some v)) =
      ((t = zeroAddress \<or>
         (\<exists>data s d. tokenData t = Some data \<and> tokenSymbol data = Some s \<and>
                      tokenDecimals data = Some d)) \<and>
       (\<exists>n. R ! i = BigIntResult n \<and> 2 < n))"
    by (rule splitV1_stores_iff) (simp add: len)
  have "\<forall>t. (out t \<noteq> None) =
        ((t = zeroAddress \<or>
          (\<exists>data s d. tokenData t = Some data \<and> tokenSymbol data = Some s \<and>
                       tokenDecimals data = Some d)) \<and>
         (\<exists>i<length T. T ! i = t \<and> (\<exists>n. R ! i = BigIntResult n \<and> 2 < n)))"
  proof
    fix t
    show "(out t \<noteq> None) =
        ((t = zeroAddress \<or>
          (\<exists>data s d. tokenData t = Some data \<and> tokenSymbol data = Some s \<and>
                       tokenDecimals data = Some d)) \<and>
         (\<exists>i<length T. T ! i = t \<and> (\<exists>n. R ! i = BigIntResult n \<and> 2 < n)))"
      using forEachIndexed_dom_iff [OF splitBalanceCallback_stores run, of t]
      by (simp add: ent cong: conj_cong) blast
  qed
  with run split_run_above_dust [OF run]
  show "\<exists>out. processSplitBalanceMulticallResponse env splitV1 chainId T tokenData R
                      Map.empty = Inr out \<and>
               (\<forall>t. (out t \<noteq> None) =
                     ((t = zeroAddress \<or>
                       (\<exists>data s d. tokenData t = Some data \<and> tokenSymbol data = Some s \<and>
                                    tokenDecimals data = Some d)) \<and>
                      (\<exists>i<length T. T ! i = t \<and> (\<exists>n. R ! i = BigIntResult n \<and> 2 < n)))) \<and>
               (\<forall>t e. out t = Some e \<longrightarrow> 2 < rawAmount e)"
    by (simp add: processSplitBalanceMulticallResponse_def)
next
  assume typed: "\<forall>i<length R. R ! i = Undefined \<or> (\<exists>n. R ! i = BigIntResult n)"
  from balance_run_returns [OF len typed]
  obtain out where run: "forEachIndexed (balanceCallback env chainId tokenData R) 0 T
      Map.empty = Inr out" by blast
  have ent: "\<And>i t. i < length T \<Longrightarrow>
      (\<exists>v. entryAt (\<lambda>t. t) (balanceCallback env chainId tokenData R) t i = Inr (Some v)) =
      ((t = zeroAddress \<or>
         (\<exists>data s d. tokenData t = Some data \<and> tokenSymbol data = Some s \<and>
                      tokenDecimals data = Some d)) \<and>
       (\<exists>n. R ! i = BigIntResult n))"
    by (rule balance_stores_iff) (simp add: len)
  have "\<forall>t. (out t \<noteq> None) =
        ((t = zeroAddress \<or>
          (\<exists>data s d. tokenData t = Some data \<and> tokenSymbol data = Some s \<and>
                       tokenDecimals data = Some d)) \<and>
         (\<exists>i<length T. T ! i = t \<and> (\<exists>n. R ! i = BigIntResult n)))"
  proof
    fix t
    show "(out t \<noteq> None) =
        ((t = zeroAddress \<or>
          (\<exists>data s d. tokenData t = Some data \<and> tokenSymbol data = Some s \<and>
                       tokenDecimals data = Some d)) \<and>
         (\<exists>i<length T. T ! i = t \<and> (\<exists>n. R ! i = BigIntResult n)))"
      using forEachIndexed_dom_iff [OF balanceCallback_stores run, of t]
      by (simp add: ent cong: conj_cong) blast
  qed
  with run
  show "\<exists>out. processBalanceMulticallResponse env chainId T tokenData R Map.empty = Inr out \<and>
               (\<forall>t. (out t \<noteq> None) =
                     ((t = zeroAddress \<or>
                       (\<exists>data s d. tokenData t = Some data \<and> tokenSymbol data = Some s \<and>
                                    tokenDecimals data = Some d)) \<and>
                      (\<exists>i<length T. T ! i = t \<and> (\<exists>n. R ! i = BigIntResult n))))"
    by (simp add: processBalanceMulticallResponse_def)
next
  assume typed: "\<forall>i<length R. \<exists>a c. R ! i = TupleResult a c"
  from splitV2_run_returns [OF len typed]
  obtain out where run: "forEachIndexed (splitBalanceCallback env splitV2 chainId tokenData R) 0 T
      Map.empty = Inr out" by blast
  have ent: "\<And>i t. i < length T \<Longrightarrow>
      (\<exists>v. entryAt (\<lambda>t. t) (splitBalanceCallback env splitV2 chainId tokenData R) t i =
            Inr (Some v)) =
      ((t = zeroAddress \<or>
         (\<exists>data s d. tokenData t = Some data \<and> tokenSymbol data = Some s \<and>
                      tokenDecimals data = Some d)) \<and>
       (\<exists>a c. R ! i = TupleResult (Some a) (Some c) \<and> 2 < a + c))"
    by (rule splitV2_stores_iff) (simp add: len)
  have "\<forall>t. (out t \<noteq> None) =
        ((t = zeroAddress \<or>
          (\<exists>data s d. tokenData t = Some data \<and> tokenSymbol data = Some s \<and>
                       tokenDecimals data = Some d)) \<and>
         (\<exists>i<length T. T ! i = t \<and>
            (\<exists>a c. R ! i = TupleResult (Some a) (Some c) \<and> 2 < a + c)))"
  proof
    fix t
    show "(out t \<noteq> None) =
        ((t = zeroAddress \<or>
          (\<exists>data s d. tokenData t = Some data \<and> tokenSymbol data = Some s \<and>
                       tokenDecimals data = Some d)) \<and>
         (\<exists>i<length T. T ! i = t \<and>
            (\<exists>a c. R ! i = TupleResult (Some a) (Some c) \<and> 2 < a + c)))"
      using forEachIndexed_dom_iff [OF splitBalanceCallback_stores run, of t]
      by (simp add: ent cong: conj_cong) blast
  qed
  with run split_run_above_dust [OF run]
  show "\<exists>out. processSplitBalanceMulticallResponse env splitV2 chainId T tokenData R
                      Map.empty = Inr out \<and>
               (\<forall>t. (out t \<noteq> None) =
                     ((t = zeroAddress \<or>
                       (\<exists>data s d. tokenData t = Some data \<and> tokenSymbol data = Some s \<and>
                                    tokenDecimals data = Some d)) \<and>
                      (\<exists>i<length T. T ! i = t \<and>
                         (\<exists>a c. R ! i = TupleResult (Some a) (Some c) \<and> 2 < a + c)))) \<and>
               (\<forall>t e. out t = Some e \<longrightarrow> 2 < rawAmount e)"
    by (simp add: processSplitBalanceMulticallResponse_def)
qed

theorem split_dust_filter_witness:
  "processSplitBalanceMulticallResponse sampleImports splitV1 137 sampleTokens sampleTokenData
       sampleAmounts Map.empty =
     Inr [wethChecksummed \<mapsto>
            \<lparr> rawAmount = 3, formattedAmount = ''scaled'', symbol = ''WETH'', decimals = 18 \<rparr>] \<and>
   processSplitBalanceMulticallResponse sampleImports splitV2 137 sampleTokens sampleTokenData
       samplePairs Map.empty =
     Inr [wethChecksummed \<mapsto>
            \<lparr> rawAmount = 3, formattedAmount = ''scaled'', symbol = ''WETH'', decimals = 18 \<rparr>] \<and>
   processBalanceMulticallResponse sampleImports 137 sampleTokens sampleTokenData
       sampleAmounts Map.empty =
     Inr [zeroAddress \<mapsto>
            \<lparr> rawAmount = 0, formattedAmount = ''scaled'', symbol = ''MATIC'', decimals = 18 \<rparr>,
          usdcChecksummed \<mapsto>
            \<lparr> rawAmount = 1, formattedAmount = ''scaled'', symbol = ''USDC'', decimals = 6 \<rparr>,
          daiChecksummed \<mapsto>
            \<lparr> rawAmount = 2, formattedAmount = ''scaled'', symbol = ''DAI'', decimals = 18 \<rparr>,
          wethChecksummed \<mapsto>
            \<lparr> rawAmount = 3, formattedAmount = ''scaled'', symbol = ''WETH'', decimals = 18 \<rparr>] \<and>
   (\<exists>i<length sampleTokens. sampleTokens ! i = wethChecksummed \<and>
      (\<exists>n. sampleAmounts ! i = BigIntResult n \<and> 2 < n)) \<and>
   \<not> (\<exists>i<length sampleTokens. sampleTokens ! i = daiChecksummed \<and>
      (\<exists>n. sampleAmounts ! i = BigIntResult n \<and> 2 < n))"
proof -
  let ?weth = "[wethChecksummed \<mapsto>
            \<lparr> rawAmount = 3, formattedAmount = ''scaled'', symbol = ''WETH'', decimals = 18 \<rparr>]"
  have len: "length sampleAmounts = length sampleTokens"
    by (simp add: sampleAmounts_def sampleTokens_def)
  have typed: "\<forall>i<length sampleAmounts.
      sampleAmounts ! i = Undefined \<or> (\<exists>n. sampleAmounts ! i = BigIntResult n)"
    by (simp add: sampleAmounts_def less_Suc_eq)
  have r1: "processSplitBalanceMulticallResponse sampleImports splitV1 137 sampleTokens
        sampleTokenData sampleAmounts Map.empty = Inr ?weth"
    by (simp add: reducer_defs sampleTokens_def sampleAmounts_def sampleTokenData_def
          sampleImports_def sample_addresses)
  have r2: "processSplitBalanceMulticallResponse sampleImports splitV2 137 sampleTokens
        sampleTokenData samplePairs Map.empty = Inr ?weth"
    by (simp add: reducer_defs sampleTokens_def samplePairs_def sampleTokenData_def
          sampleImports_def sample_addresses)
  have r3: "processBalanceMulticallResponse sampleImports 137 sampleTokens sampleTokenData
       sampleAmounts Map.empty =
     Inr [zeroAddress \<mapsto>
            \<lparr> rawAmount = 0, formattedAmount = ''scaled'', symbol = ''MATIC'', decimals = 18 \<rparr>,
          usdcChecksummed \<mapsto>
            \<lparr> rawAmount = 1, formattedAmount = ''scaled'', symbol = ''USDC'', decimals = 6 \<rparr>,
          daiChecksummed \<mapsto>
            \<lparr> rawAmount = 2, formattedAmount = ''scaled'', symbol = ''DAI'', decimals = 18 \<rparr>,
          wethChecksummed \<mapsto>
            \<lparr> rawAmount = 3, formattedAmount = ''scaled'', symbol = ''WETH'', decimals = 18 \<rparr>]"
    by (simp add: reducer_defs sampleTokens_def sampleAmounts_def sampleTokenData_def
          sampleImports_def sample_addresses)
  from split_dust_filter [OF len, where env = sampleImports and chainId = 137
      and tokenData = sampleTokenData, THEN conjunct1, THEN mp, OF typed, THEN conjunct1] r1
  have iff: "\<forall>t. (?weth t \<noteq> None) =
      ((t = zeroAddress \<or>
         (\<exists>data s d. sampleTokenData t = Some data \<and> tokenSymbol data = Some s \<and>
                      tokenDecimals data = Some d)) \<and>
       (\<exists>i<length sampleTokens. sampleTokens ! i = t \<and>
          (\<exists>n. sampleAmounts ! i = BigIntResult n \<and> 2 < n)))"
    by auto
  from iff [rule_format, of wethChecksummed]
  have a: "\<exists>i<length sampleTokens. sampleTokens ! i = wethChecksummed \<and>
      (\<exists>n. sampleAmounts ! i = BigIntResult n \<and> 2 < n)"
    by simp
  from iff [rule_format, of daiChecksummed]
  have b: "\<not> (\<exists>i<length sampleTokens. sampleTokens ! i = daiChecksummed \<and>
      (\<exists>n. sampleAmounts ! i = BigIntResult n \<and> 2 < n))"
    by (simp add: sampleTokenData_def sample_addresses)
  from r1 r2 r3 a b show ?thesis by blast
qed

text \<open>
  C3 as stated fails for a token without metadata: with an empty metadata mapping a raw
  amount of 5 (for splitV2 the sum of 2 and 3) gets no entry from the split reducer, and
  a defined amount of 0 gets none from the account reducer.
\<close>

theorem dust_filter_missing_metadata_counterexample:
  "processSplitBalanceMulticallResponse sampleImports splitV1 1 [wethChecksummed] Map.empty
     [BigIntResult 5] Map.empty = Inr Map.empty \<and>
   processSplitBalanceMulticallResponse sampleImports splitV2 1 [wethChecksummed] Map.empty
     [TupleResult (Some 2) (Some 3)] Map.empty = Inr Map.empty \<and>
   processBalanceMulticallResponse sampleImports 1 [wethChecksummed] Map.empty
     [BigIntResult 0] Map.empty = Inr Map.empty"
  by (simp add: reducer_defs sample_addresses)

section \<open>Undefined results\<close>

lemma splitV2_first_undefined_throws:
  assumes "i < length T" "i < length R" "R ! i = Undefined"
    and "\<forall>j<i. \<exists>a c. R ! j = TupleResult a c"
  shows "processSplitBalanceMulticallResponse env splitV2 chainId T tokenData R balances = Inl TypeError"
  unfolding processSplitBalanceMulticallResponse_def
proof (rule forEachIndexed_throws [OF splitBalanceCallback_stores, where j = i and i = 0, simplified])
  show "i < length T" by fact
  show "entryAt (\<lambda>t. t) (splitBalanceCallback env splitV2 chainId tokenData R) (T ! i) i = Inl TypeError"
    using assms by (simp add: split_entry)
  show "\<forall>j'<i. \<exists>r. entryAt (\<lambda>t. t) (splitBalanceCallback env splitV2 chainId tokenData R) (T ! j') j' = Inr r"
  proof (intro allI impI)
    fix j' assume "j' < i"
    with assms obtain a c where "R ! j' = TupleResult a c" "j' < length R" by fastforce
    then show "\<exists>r. entryAt (\<lambda>t. t) (splitBalanceCallback env splitV2 chainId tokenData R) (T ! j') j' = Inr r"
      by (auto simp: split_entry split: option.splits)
  qed
qed

lemma splitV2_sums_components:
  assumes "index < length R" "R ! index = TupleResult (Some splitBalance) (Some warehouseBalance)"
  shows "splitBalanceCallback env splitV2 chainId tokenData R token index balances =
         splitBalanceStore env chainId tokenData token (Some (splitBalance + warehouseBalance)) balances"
  using assms by (simp add: splitBalanceCallback_def)

lemma splitV2_undefined_component_skipped:
  assumes "index < length R" "R ! index = TupleResult a c" "a = None \<or> c = None"
  shows "splitBalanceCallback env splitV2 chainId tokenData R token index balances = Inr balances"
  using assms by (auto simp: splitBalanceCallback_def split: option.splits)

text \<open>
  C4. The claim: the splitV2 reducer computes a token's balance as the sum of the two
  components of its result, and when a component is undefined, or the whole result is
  undefined, it stores no entry and does not fail. The lemmas above on the sum and on an
  undefined component are the part that holds. For a result that is undefined as a whole
  the destructuring throws: run on the native token alone with a reverted call, the
  reducer ends in a TypeError.
\<close>

theorem splitV2_undefined_result_throws:
  "processSplitBalanceMulticallResponse sampleImports splitV2 1 [zeroAddress] Map.empty
     [Undefined] Map.empty = Inl TypeError"
  by (simp add: reducer_defs)

text \<open>
  C5, as amended. Let the result list have the length of the token list, each result a
  bigint or undefined. Then the account reducer and the splitV1 reducer return, and a
  token whose every occurrence in the list has an undefined result gets no entry: the
  mapping is at that token what it was before the run. At an index whose result is
  undefined the callback of either reducer returns the mapping as it got it.
\<close>

theorem undefined_results_skipped:
  assumes len: "length R = length T"
    and typed: "\<forall>i<length R. R ! i = Undefined \<or> (\<exists>n. R ! i = BigIntResult n)"
  shows "(\<exists>out. processBalanceMulticallResponse env chainId T tokenData R balances = Inr out \<and>
            (\<forall>t. (\<forall>i<length T. T ! i = t \<longrightarrow> R ! i = Undefined) \<longrightarrow> out t = balances t)) \<and>
         (\<exists>out. processSplitBalanceMulticallResponse env splitV1 chainId T tokenData R balances =
                  Inr out \<and>
            (\<forall>t. (\<forall>i<length T. T ! i = t \<longrightarrow> R ! i = Undefined) \<longrightarrow> out t = balances t)) \<and>
         (\<forall>i<length T. R ! i = Undefined \<longrightarrow>
            (\<forall>b. balanceCallback env chainId tokenData R (T ! i) i b = Inr b) \<and>
            (\<forall>b. splitBalanceCallback env splitV1 chainId tokenData R (T ! i) i b = Inr b))"
proof (intro conjI)
  let ?cb = "balanceCallback env chainId tokenData R"
  have "\<forall>j<length T. \<exists>r. entryAt (\<lambda>t. t) ?cb (T ! j) (0 + j) = Inr r"
  proof (intro allI impI)
    fix j assume "j < length T"
    with len typed have "j < length R" "R ! j = Undefined \<or> (\<exists>n. R ! j = BigIntResult n)" by auto
    then show "\<exists>r. entryAt (\<lambda>t. t) ?cb (T ! j) (0 + j) = Inr r"
      by (auto simp: balance_entry split: option.splits)
  qed
  from forEachIndexed_returns [OF balanceCallback_stores this]
  obtain out where run: "forEachIndexed ?cb 0 T balances = Inr out" by blast
  have "\<forall>t. (\<forall>i<length T. T ! i = t \<longrightarrow> R ! i = Undefined) \<longrightarrow> out t = balances t"
  proof (intro allI impI)
    fix t assume u: "\<forall>i<length T. T ! i = t \<longrightarrow> R ! i = Undefined"
    have "\<forall>j<length T. T ! j = t \<longrightarrow> entryAt (\<lambda>t. t) ?cb (T ! j) (0 + j) = Inr None"
      using u len by (auto simp: balance_entry)
    from forEachIndexed_untouched [OF balanceCallback_stores run this] show "out t = balances t" .
  qed
  with run show "\<exists>out. processBalanceMulticallResponse env chainId T tokenData R balances = Inr out \<and>
            (\<forall>t. (\<forall>i<length T. T ! i = t \<longrightarrow> R ! i = Undefined) \<longrightarrow> out t = balances t)"
    by (simp add: processBalanceMulticallResponse_def)
next
  let ?cb = "splitBalanceCallback env splitV1 chainId tokenData R"
  have "\<forall>j<length T. \<exists>r. entryAt (\<lambda>t. t) ?cb (T ! j) (0 + j) = Inr r"
  proof (intro allI impI)
    fix j assume "j < length T"
    with len typed have "j < length R" "R ! j = Undefined \<or> (\<exists>n. R ! j = BigIntResult n)" by auto
    then show "\<exists>r. entryAt (\<lambda>t. t) ?cb (T ! j) (0 + j) = Inr r"
      by (auto simp: split_entry split: option.splits)
  qed
  from forEachIndexed_returns [OF splitBalanceCallback_stores this]
  obtain out where run: "forEachIndexed ?cb 0 T balances = Inr out" by blast
  have "\<forall>t. (\<forall>i<length T. T ! i = t \<longrightarrow> R ! i = Undefined) \<longrightarrow> out t = balances t"
  proof (intro allI impI)
    fix t assume u: "\<forall>i<length T. T ! i = t \<longrightarrow> R ! i = Undefined"
    have "\<forall>j<length T. T ! j = t \<longrightarrow> entryAt (\<lambda>t. t) ?cb (T ! j) (0 + j) = Inr None"
      using u len by (auto simp: split_entry)
    from forEachIndexed_untouched [OF splitBalanceCallback_stores run this] show "out t = balances t" .
  qed
  with run show "\<exists>out. processSplitBalanceMulticallResponse env splitV1 chainId T tokenData R balances =
                  Inr out \<and>
            (\<forall>t. (\<forall>i<length T. T ! i = t \<longrightarrow> R ! i = Undefined) \<longrightarrow> out t = balances t)"
    by (simp add: processSplitBalanceMulticallResponse_def)
next
  show "\<forall>i<length T. R ! i = Undefined \<longrightarrow>
            (\<forall>b. balanceCallback env chainId tokenData R (T ! i) i b = Inr b) \<and>
            (\<forall>b. splitBalanceCallback env splitV1 chainId tokenData R (T ! i) i b = Inr b)"
    using len
    by (auto simp: balanceCallback_def splitBalanceCallback_def splitBalanceStore_def
          split: option.splits prod.splits)
qed

theorem undefined_results_skipped_witness:
  "processBalanceMulticallResponse sampleImports 1 [usdcChecksummed, daiChecksummed] sampleTokenData
       [Undefined, BigIntResult 16] Map.empty =
     Inr [daiChecksummed \<mapsto>
            \<lparr> rawAmount = 16, formattedAmount = ''scaled'', symbol = ''DAI'', decimals = 18 \<rparr>] \<and>
   (\<exists>out. processSplitBalanceMulticallResponse sampleImports splitV1 1
             [usdcChecksummed, daiChecksummed] sampleTokenData [Undefined, BigIntResult 16]
             Map.empty = Inr out \<and>
          out usdcChecksummed = None)"
proof -
  have len: "length [Undefined, BigIntResult 16] = length [usdcChecksummed, daiChecksummed]"
    by simp
  have typed: "\<forall>i<length [Undefined, BigIntResult 16].
      [Undefined, BigIntResult 16] ! i = Undefined \<or>
      (\<exists>n. [Undefined, BigIntResult 16] ! i = BigIntResult n)"
    by (simp add: less_Suc_eq)
  have only: "\<forall>i<length [usdcChecksummed, daiChecksummed].
      [usdcChecksummed, daiChecksummed] ! i = usdcChecksummed \<longrightarrow>
      [Undefined, BigIntResult 16] ! i = Undefined"
    by (simp add: less_Suc_eq sample_addresses)
  have run: "processBalanceMulticallResponse sampleImports 1 [usdcChecksummed, daiChecksummed]
       sampleTokenData [Undefined, BigIntResult 16] Map.empty =
     Inr [daiChecksummed \<mapsto>
            \<lparr> rawAmount = 16, formattedAmount = ''scaled'', symbol = ''DAI'', decimals = 18 \<rparr>]"
    by (simp add: reducer_defs sampleTokenData_def sampleImports_def sample_addresses)
  from undefined_results_skipped [OF len typed, of sampleImports 1 sampleTokenData Map.empty] only
  have "\<exists>out. processSplitBalanceMulticallResponse sampleImports splitV1 1
             [usdcChecksummed, daiChecksummed] sampleTokenData [Undefined, BigIntResult 16]
             Map.empty = Inr out \<and> out usdcChecksummed = None"
    by blast
  with run show ?thesis by blast
qed

text \<open>
  C5 as stated fails when a token occurs twice: the result at index 1 is undefined, and
  the output still has an entry for the token at index 1, stored at index 0.
\<close>

theorem undefined_result_duplicate_counterexample:
  "[daiChecksummed, daiChecksummed] ! 1 = daiChecksummed \<and>
   [BigIntResult 16, Undefined] ! 1 = Undefined \<and>
   processBalanceMulticallResponse sampleImports 1 [daiChecksummed, daiChecksummed] sampleTokenData
     [BigIntResult 16, Undefined] Map.empty =
     Inr [daiChecksummed \<mapsto>
            \<lparr> rawAmount = 16, formattedAmount = ''scaled'', symbol = ''DAI'', decimals = 18 \<rparr>]"
  by (simp add: reducer_defs sampleTokenData_def sampleImports_def sample_addresses)

section \<open>Tokens that occur more than once\<close>

lemma balance_entry_meta:
  assumes "i < length R"
  shows "entryAt (\<lambda>t. t) (balanceCallback env chainId tokenData R) t i =
     (case asBigInt (R ! i) of
        Inl e \<Rightarrow> Inl e
      | Inr None \<Rightarrow> Inr None
      | Inr (Some n) \<Rightarrow>
          (case tokenMetadata env chainId tokenData t of
             None \<Rightarrow> Inr None
           | Some (s, d) \<Rightarrow>
               Inr (Some \<lparr> rawAmount = n, formattedAmount = fromBigIntToTokenValue env n d,
                           symbol = s, decimals = d \<rparr>)))"
  using assms
  by (auto simp: balance_entry tokenMetadata_def split: sum.splits option.splits)

lemma splitV1_entry_meta:
  assumes "i < length R"
  shows "entryAt (\<lambda>t. t) (splitBalanceCallback env splitV1 chainId tokenData R) t i =
     (case asBigInt (R ! i) of
        Inl e \<Rightarrow> Inl e
      | Inr None \<Rightarrow> Inr None
      | Inr (Some n) \<Rightarrow>
          if \<not> 2 < n then Inr None
          else (case tokenMetadata env chainId tokenData t of
                  None \<Rightarrow> Inr None
                | Some (s, d) \<Rightarrow>
                    Inr (Some \<lparr> rawAmount = n, formattedAmount = fromBigIntToTokenValue env n d,
                                symbol = s, decimals = d \<rparr>)))"
  using assms
  by (auto simp: split_entry tokenMetadata_def split: sum.splits option.splits)

lemma splitV2_entry_meta:
  assumes "i < length R" "R ! i = TupleResult a c"
  shows "entryAt (\<lambda>t. t) (splitBalanceCallback env splitV2 chainId tokenData R) t i =
     (case (a, c) of
        (Some sb, Some wb) \<Rightarrow>
          if \<not> 2 < sb + wb then Inr None
          else (case tokenMetadata env chainId tokenData t of
                  None \<Rightarrow> Inr None
                | Some (s, d) \<Rightarrow>
                    Inr (Some \<lparr> rawAmount = sb + wb,
                                formattedAmount = fromBigIntToTokenValue env (sb + wb) d,
                                symbol = s, decimals = d \<rparr>))
      | _ \<Rightarrow> Inr None)"
  using assms
  by (auto simp: split_entry tokenMetadata_def split: sum.splits option.splits)

text \<open>
  C10, as amended. The output of a reducer is a mapping, so it has at most one entry for
  a token, however often the token occurs in the list. Let the result list have the
  length of the token list. An occurrence of a token stores an entry when the token has
  metadata and the result at that index is a defined amount; for the split reducers the
  amount must be above 2, and for splitV2 it is the sum of two defined components. Each
  reducer returns; if an occurrence stores an entry and no later occurrence of the same
  token stores one, the output's entry for the token is the one computed from that
  occurrence: its amount, the amount formatted with the token's decimals, the token's
  symbol and decimals. So a later occurrence that stores an entry overwrites an earlier
  one, and one that is skipped does not. If the token has no metadata, or no occurrence
  of it stores an entry, the mapping is at that token what it was before the run. For
  the account and the splitV1 reducer this is about results that are each a bigint or
  undefined, for the splitV2 reducer about results that are each a pair; a splitV2
  result that is undefined as a whole is left aside here.
\<close>

theorem last_storing_occurrence_wins:
  assumes len: "length R = length T"
  shows "((\<forall>i<length R. R ! i = Undefined \<or> (\<exists>n. R ! i = BigIntResult n)) \<longrightarrow>
            (\<exists>out. processBalanceMulticallResponse env chainId T tokenData R balances = Inr out \<and>
               (\<forall>i n s d.
                   i < length T \<and> R ! i = BigIntResult n \<and>
                   tokenMetadata env chainId tokenData (T ! i) = Some (s, d) \<and>
                   (\<forall>j. i < j \<and> j < length T \<and> T ! j = T ! i \<longrightarrow> R ! j = Undefined)
                   \<longrightarrow> out (T ! i) =
                         Some \<lparr> rawAmount = n, formattedAmount = fromBigIntToTokenValue env n d,
                                symbol = s, decimals = d \<rparr>) \<and>
               (\<forall>t. tokenMetadata env chainId tokenData t = None \<or>
                    (\<forall>i<length T. T ! i = t \<longrightarrow> R ! i = Undefined)
                    \<longrightarrow> out t = balances t)) \<and>
            (\<exists>out. processSplitBalanceMulticallResponse env splitV1 chainId T tokenData R balances =
                     Inr out \<and>
               (\<forall>i n s d.
                   i < length T \<and> R ! i = BigIntResult n \<and> 2 < n \<and>
                   tokenMetadata env chainId tokenData (T ! i) = Some (s, d) \<and>
                   (\<forall>j. i < j \<and> j < length T \<and> T ! j = T ! i \<longrightarrow>
                        \<not> (\<exists>m. R ! j = BigIntResult m \<and> 2 < m))
                   \<longrightarrow> out (T ! i) =
                         Some \<lparr> rawAmount = n, formattedAmount = fromBigIntToTokenValue env n d,
                                symbol = s, decimals = d \<rparr>) \<and>
               (\<forall>t. tokenMetadata env chainId tokenData t = None \<or>
                    (\<forall>i<length T. T ! i = t \<longrightarrow> \<not> (\<exists>m. R ! i = BigIntResult m \<and> 2 < m))
                    \<longrightarrow> out t = balances t))) \<and>
         ((\<forall>i<length R. \<exists>a c. R ! i = TupleResult a c) \<longrightarrow>
            (\<exists>out. processSplitBalanceMulticallResponse env splitV2 chainId T tokenData R balances =
                     Inr out \<and>
               (\<forall>i a c s d.
                   i < length T \<and> R ! i = TupleResult (Some a) (Some c) \<and> 2 < a + c \<and>
                   tokenMetadata env chainId tokenData (T ! i) = Some (s, d) \<and>
                   (\<forall>j. i < j \<and> j < length T \<and> T ! j = T ! i \<longrightarrow>
                        \<not> (\<exists>a' c'. R ! j = TupleResult (Some a') (Some c') \<and> 2 < a' + c'))
                   \<longrightarrow> out (T ! i) =
                         Some \<lparr> rawAmount = a + c,
                                formattedAmount = fromBigIntToTokenValue env (a + c) d,
                                symbol = s, decimals = d \<rparr>) \<and>
               (\<forall>t. tokenMetadata env chainId tokenData t = None \<or>
                    (\<forall>i<length T. T ! i = t \<longrightarrow>
                        \<not> (\<exists>a' c'. R ! i = TupleResult (Some a') (Some c') \<and> 2 < a' + c'))
                    \<longrightarrow> out t = balances t)))"
proof (intro conjI impI)
  assume typed: "\<forall>i<length R. R ! i = Undefined \<or> (\<exists>n. R ! i = BigIntResult n)"
  let ?cb = "balanceCallback env chainId tokenData R"
  from balance_run_returns [OF len typed]
  obtain out where run: "forEachIndexed ?cb 0 T balances = Inr out" by blast
  have inb: "\<And>i. i < length T \<Longrightarrow> i < length R" using len by simp
  have last: "\<forall>i n s d.
      i < length T \<and> R ! i = BigIntResult n \<and>
      tokenMetadata env chainId tokenData (T ! i) = Some (s, d) \<and>
      (\<forall>j. i < j \<and> j < length T \<and> T ! j = T ! i \<longrightarrow> R ! j = Undefined)
      \<longrightarrow> out (T ! i) =
            Some \<lparr> rawAmount = n, formattedAmount = fromBigIntToTokenValue env n d,
                   symbol = s, decimals = d \<rparr>"
  proof (intro allI impI)
    fix i n s d
    assume a: "i < length T \<and> R ! i = BigIntResult n \<and>
      tokenMetadata env chainId tokenData (T ! i) = Some (s, d) \<and>
      (\<forall>j. i < j \<and> j < length T \<and> T ! j = T ! i \<longrightarrow> R ! j = Undefined)"
    then have i: "i < length T" by simp
    have here: "entryAt (\<lambda>t. t) ?cb (T ! i) (0 + i) =
        Inr (Some \<lparr> rawAmount = n, formattedAmount = fromBigIntToTokenValue env n d,
                     symbol = s, decimals = d \<rparr>)"
      using a by (simp add: balance_entry_meta [OF inb [OF i]])
    have later: "\<forall>j'. i < j' \<and> j' < length T \<and> T ! j' = T ! i \<longrightarrow>
        entryAt (\<lambda>t. t) ?cb (T ! j') (0 + j') = Inr None"
    proof (intro allI impI)
      fix j' assume j: "i < j' \<and> j' < length T \<and> T ! j' = T ! i"
      with a have "R ! j' = Undefined" by blast
      with j show "entryAt (\<lambda>t. t) ?cb (T ! j') (0 + j') = Inr None"
        by (simp add: balance_entry_meta [OF inb])
    qed
    from forEachIndexed_last_store [OF balanceCallback_stores run i refl here later]
    show "out (T ! i) =
            Some \<lparr> rawAmount = n, formattedAmount = fromBigIntToTokenValue env n d,
                   symbol = s, decimals = d \<rparr>" .
  qed
  have none: "\<forall>t. tokenMetadata env chainId tokenData t = None \<or>
      (\<forall>i<length T. T ! i = t \<longrightarrow> R ! i = Undefined) \<longrightarrow> out t = balances t"
  proof (intro allI impI)
    fix t
    assume a: "tokenMetadata env chainId tokenData t = None \<or>
      (\<forall>i<length T. T ! i = t \<longrightarrow> R ! i = Undefined)"
    have "\<forall>j<length T. T ! j = t \<longrightarrow> entryAt (\<lambda>t. t) ?cb (T ! j) (0 + j) = Inr None"
    proof (intro allI impI)
      fix j assume j: "j < length T" "T ! j = t"
      from typed inb [OF j(1)] have "R ! j = Undefined \<or> (\<exists>n. R ! j = BigIntResult n)" by blast
      with a j show "entryAt (\<lambda>t. t) ?cb (T ! j) (0 + j) = Inr None"
        by (auto simp: balance_entry_meta [OF inb [OF j(1)]])
    qed
    from forEachIndexed_untouched [OF balanceCallback_stores run this] show "out t = balances t" .
  qed
  from run last none
  show "\<exists>out. processBalanceMulticallResponse env chainId T tokenData R balances = Inr out \<and>
               (\<forall>i n s d.
                   i < length T \<and> R ! i = BigIntResult n \<and>
                   tokenMetadata env chainId tokenData (T ! i) = Some (s, d) \<and>
                   (\<forall>j. i < j \<and> j < length T \<and> T ! j = T ! i \<longrightarrow> R ! j = Undefined)
                   \<longrightarrow> out (T ! i) =
                         Some \<lparr> rawAmount = n, formattedAmount = fromBigIntToTokenValue env n d,
                                symbol = s, decimals = d \<rparr>) \<and>
               (\<forall>t. tokenMetadata env chainId tokenData t = None \<or>
                    (\<forall>i<length T. T ! i = t \<longrightarrow> R ! i = Undefined)
                    \<longrightarrow> out t = balances t)"
    unfolding processBalanceMulticallResponse_def by blast
next
  assume typed: "\<forall>i<length R. R ! i = Undefined \<or> (\<exists>n. R ! i = BigIntResult n)"
  let ?cb = "splitBalanceCallback env splitV1 chainId tokenData R"
  from splitV1_run_returns [OF len typed]
  obtain out where run: "forEachIndexed ?cb 0 T balances = Inr out" by blast
  have inb: "\<And>i. i < length T \<Longrightarrow> i < length R" using len by simp
  have skip: "\<And>j. j < length T \<Longrightarrow> \<not> (\<exists>m. R ! j = BigIntResult m \<and> 2 < m) \<Longrightarrow>
      entryAt (\<lambda>t. t) ?cb (T ! j) (0 + j) = Inr None"
  proof -
    fix j assume j: "j < length T" and no: "\<not> (\<exists>m. R ! j = BigIntResult m \<and> 2 < m)"
    from typed inb [OF j] have "R ! j = Undefined \<or> (\<exists>n. R ! j = BigIntResult n)" by blast
    with no show "entryAt (\<lambda>t. t) ?cb (T ! j) (0 + j) = Inr None"
      by (auto simp: splitV1_entry_meta [OF inb [OF j]])
  qed
  have last: "\<forall>i n s d.
      i < length T \<and> R ! i = BigIntResult n \<and> 2 < n \<and>
      tokenMetadata env chainId tokenData (T ! i) = Some (s, d) \<and>
      (\<forall>j. i < j \<and> j < length T \<and> T ! j = T ! i \<longrightarrow>
           \<not> (\<exists>m. R ! j = BigIntResult m \<and> 2 < m))
      \<longrightarrow> out (T ! i) =
            Some \<lparr> rawAmount = n, formattedAmount = fromBigIntToTokenValue env n d,
                   symbol = s, decimals = d \<rparr>"
  proof (intro allI impI)
    fix i n s d
    assume a: "i < length T \<and> R ! i = BigIntResult n \<and> 2 < n \<and>
      tokenMetadata env chainId tokenData (T ! i) = Some (s, d) \<and>
      (\<forall>j. i < j \<and> j < length T \<and> T ! j = T ! i \<longrightarrow>
           \<not> (\<exists>m. R ! j = BigIntResult m \<and> 2 < m))"
    then have i: "i < length T" by simp
    have here: "entryAt (\<lambda>t. t) ?cb (T ! i) (0 + i) =
        Inr (Some \<lparr> rawAmount = n, formattedAmount = fromBigIntToTokenValue env n d,
                     symbol = s, decimals = d \<rparr>)"
      using a by (simp add: splitV1_entry_meta [OF inb [OF i]])
    have later: "\<forall>j'. i < j' \<and> j' < length T \<and> T ! j' = T ! i \<longrightarrow>
        entryAt (\<lambda>t. t) ?cb (T ! j') (0 + j') = Inr None"
      using a skip by blast
    from forEachIndexed_last_store [OF splitBalanceCallback_stores run i refl here later]
    show "out (T ! i) =
            Some \<lparr> rawAmount = n, formattedAmount = fromBigIntToTokenValue env n d,
                   symbol = s, decimals = d \<rparr>" .
  qed
  have none: "\<forall>t. tokenMetadata env chainId tokenData t = None \<or>
      (\<forall>i<length T. T ! i = t \<longrightarrow> \<not> (\<exists>m. R ! i = BigIntResult m \<and> 2 < m))
      \<longrightarrow> out t = balances t"
  proof (intro allI impI)
    fix t
    assume a: "tokenMetadata env chainId tokenData t = None \<or>
      (\<forall>i<length T. T ! i = t \<longrightarrow> \<not> (\<exists>m. R ! i = BigIntResult m \<and> 2 < m))"
    have "\<forall>j<length T. T ! j = t \<longrightarrow> entryAt (\<lambda>t. t) ?cb (T ! j) (0 + j) = Inr None"
    proof (intro allI impI)
      fix j assume j: "j < length T" "T ! j = t"
      from typed inb [OF j(1)] have ty: "R ! j = Undefined \<or> (\<exists>n. R ! j = BigIntResult n)" by blast
      from a show "entryAt (\<lambda>t. t) ?cb (T ! j) (0 + j) = Inr None"
      proof
        assume "tokenMetadata env chainId tokenData t = None"
        with ty j show ?thesis by (auto simp: splitV1_entry_meta [OF inb [OF j(1)]])
      next
        assume "\<forall>i<length T. T ! i = t \<longrightarrow> \<not> (\<exists>m. R ! i = BigIntResult m \<and> 2 < m)"
        with j skip show ?thesis by blast
      qed
    qed
    from forEachIndexed_untouched [OF splitBalanceCallback_stores run this] show "out t = balances t" .
  qed
  from run last none
  show "\<exists>out. processSplitBalanceMulticallResponse env splitV1 chainId T tokenData R balances =
                     Inr out \<and>
               (\<forall>i n s d.
                   i < length T \<and> R ! i = BigIntResult n \<and> 2 < n \<and>
                   tokenMetadata env chainId tokenData (T ! i) = Some (s, d) \<and>
                   (\<forall>j. i < j \<and> j < length T \<and> T ! j = T ! i \<longrightarrow>
                        \<not> (\<exists>m. R ! j = BigIntResult m \<and> 2 < m))
                   \<longrightarrow> out (T ! i) =
                         Some \<lparr> rawAmount = n, formattedAmount = fromBigIntToTokenValue env n d,
                                symbol = s, decimals = d \<rparr>) \<and>
               (\<forall>t. tokenMetadata env chainId tokenData t = None \<or>
                    (\<forall>i<length T. T ! i = t \<longrightarrow> \<not> (\<exists>m. R ! i = BigIntResult m \<and> 2 < m))
                    \<longrightarrow> out t = balances t)"
    unfolding processSplitBalanceMulticallResponse_def by blast
next
  assume typed: "\<forall>i<length R. \<exists>a c. R ! i = TupleResult a c"
  let ?cb = "splitBalanceCallback env splitV2 chainId tokenData R"
  from splitV2_run_returns [OF len typed]
  obtain out where run: "forEachIndexed ?cb 0 T balances = Inr out" by blast
  have inb: "\<And>i. i < length T \<Longrightarrow> i < length R" using len by simp
  have skip: "\<And>j. j < length T \<Longrightarrow>
      \<not> (\<exists>a' c'. R ! j = TupleResult (Some a') (Some c') \<and> 2 < a' + c') \<Longrightarrow>
      entryAt (\<lambda>t. t) ?cb (T ! j) (0 + j) = Inr None"
  proof -
    fix j assume j: "j < length T"
      and no: "\<not> (\<exists>a' c'. R ! j = TupleResult (Some a') (Some c') \<and> 2 < a' + c')"
    from typed inb [OF j] obtain a c where r: "R ! j = TupleResult a c" by blast
    with no show "entryAt (\<lambda>t. t) ?cb (T ! j) (0 + j) = Inr None"
      by (auto simp: splitV2_entry_meta [OF inb [OF j] r] split: option.splits)
  qed
  have last: "\<forall>i a c s d.
      i < length T \<and> R ! i = TupleResult (Some a) (Some c) \<and> 2 < a + c \<and>
      tokenMetadata env chainId tokenData (T ! i) = Some (s, d) \<and>
      (\<forall>j. i < j \<and> j < length T \<and> T ! j = T ! i \<longrightarrow>
           \<not> (\<exists>a' c'. R ! j = TupleResult (Some a') (Some c') \<and> 2 < a' + c'))
      \<longrightarrow> out (T ! i) =
            Some \<lparr> rawAmount = a + c, formattedAmount = fromBigIntToTokenValue env (a + c) d,
                   symbol = s, decimals = d \<rparr>"
  proof (intro allI impI)
    fix i a c s d
    assume a: "i < length T \<and> R ! i = TupleResult (Some a) (Some c) \<and> 2 < a + c \<and>
      tokenMetadata env chainId tokenData (T ! i) = Some (s, d) \<and>
      (\<forall>j. i < j \<and> j < length T \<and> T ! j = T ! i \<longrightarrow>
           \<not> (\<exists>a' c'. R ! j = TupleResult (Some a') (Some c') \<and> 2 < a' + c'))"
    then have i: "i < length T" and r: "R ! i = TupleResult (Some a) (Some c)" by simp_all
    have here: "entryAt (\<lambda>t. t) ?cb (T ! i) (0 + i) =
        Inr (Some \<lparr> rawAmount = a + c, formattedAmount = fromBigIntToTokenValue env (a + c) d,
                     symbol = s, decimals = d \<rparr>)"
      using a by (simp add: splitV2_entry_meta [OF inb [OF i] r])
    have later: "\<forall>j'. i < j' \<and> j' < length T \<and> T ! j' = T ! i \<longrightarrow>
        entryAt (\<lambda>t. t) ?cb (T ! j') (0 + j') = Inr None"
      using a skip by blast
    from forEachIndexed_last_store [OF splitBalanceCallback_stores run i refl here later]
    show "out (T ! i) =
            Some \<lparr> rawAmount = a + c, formattedAmount = fromBigIntToTokenValue env (a + c) d,
                   symbol = s, decimals = d \<rparr>" .
  qed
  have none: "\<forall>t. tokenMetadata env chainId tokenData t = None \<or>
      (\<forall>i<length T. T ! i = t \<longrightarrow>
          \<not> (\<exists>a' c'. R ! i = TupleResult (Some a') (Some c') \<and> 2 < a' + c'))
      \<longrightarrow> out t = balances t"
  proof (intro allI impI)
    fix t
    assume a: "tokenMetadata env chainId tokenData t = None \<or>
      (\<forall>i<length T. T ! i = t \<longrightarrow>
          \<not> (\<exists>a' c'. R ! i = TupleResult (Some a') (Some c') \<and> 2 < a' + c'))"
    have "\<forall>j<length T. T ! j = t \<longrightarrow> entryAt (\<lambda>t. t) ?cb (T ! j) (0 + j) = Inr None"
    proof (intro allI impI)
      fix j assume j: "j < length T" "T ! j = t"
      from typed inb [OF j(1)] obtain a' c' where r: "R ! j = TupleResult a' c'" by blast
      from a show "entryAt (\<lambda>t. t) ?cb (T ! j) (0 + j) = Inr None"
      proof
        assume "tokenMetadata env chainId tokenData t = None"
        with j show ?thesis
          by (auto simp: splitV2_entry_meta [OF inb [OF j(1)] r] split: option.splits)
      next
        assume "\<forall>i<length T. T ! i = t \<longrightarrow>
          \<not> (\<exists>a' c'. R ! i = TupleResult (Some a') (Some c') \<and> 2 < a' + c')"
        with j skip show ?thesis by blast
      qed
    qed
    from forEachIndexed_untouched [OF splitBalanceCallback_stores run this] show "out t = balances t" .
  qed
  from run last none
  show "\<exists>out. processSplitBalanceMulticallResponse env splitV2 chainId T tokenData R balances =
                     Inr out \<and>
               (\<forall>i a c s d.
                   i < length T \<and> R ! i = TupleResult (Some a) (Some c) \<and> 2 < a + c \<and>
                   tokenMetadata env chainId tokenData (T ! i) = Some (s, d) \<and>
                   (\<forall>j. i < j \<and> j < length T \<and> T ! j = T ! i \<longrightarrow>
                        \<not> (\<exists>a' c'. R ! j = TupleResult (Some a') (Some c') \<and> 2 < a' + c'))
                   \<longrightarrow> out (T ! i) =
                         Some \<lparr> rawAmount = a + c,
                                formattedAmount = fromBigIntToTokenValue env (a + c) d,
                                symbol = s, decimals = d \<rparr>) \<and>
               (\<forall>t. tokenMetadata env chainId tokenData t = None \<or>
                    (\<forall>i<length T. T ! i = t \<longrightarrow>
                        \<not> (\<exists>a' c'. R ! i = TupleResult (Some a') (Some c') \<and> 2 < a' + c'))
                    \<longrightarrow> out t = balances t)"
    unfolding processSplitBalanceMulticallResponse_def by blast
qed

theorem last_storing_occurrence_wins_witness:
  "processBalanceMulticallResponse sampleImports 1 [usdcChecksummed, usdcChecksummed, usdcChecksummed]
     sampleTokenData [BigIntResult 5, BigIntResult 7, Undefined] Map.empty =
     Inr [usdcChecksummed \<mapsto>
            \<lparr> rawAmount = 7, formattedAmount = ''scaled'', symbol = ''USDC'', decimals = 6 \<rparr>] \<and>
   tokenMetadata sampleImports 1 sampleTokenData usdcChecksummed = Some (''USDC'', 6)"
proof -
  let ?T = "[usdcChecksummed, usdcChecksummed, usdcChecksummed]"
  let ?R = "[BigIntResult 5, BigIntResult 7, Undefined]"
  let ?e = "\<lparr> rawAmount = 7, formattedAmount = ''scaled'', symbol = ''USDC'', decimals = 6 \<rparr>"
  have len: "length ?R = length ?T" by simp
  have typed: "\<forall>i<length ?R. ?R ! i = Undefined \<or> (\<exists>n. ?R ! i = BigIntResult n)"
    by (simp add: less_Suc_eq)
  have meta: "tokenMetadata sampleImports 1 sampleTokenData usdcChecksummed = Some (''USDC'', 6)"
    by (simp add: tokenMetadata_def sampleTokenData_def sample_addresses)
  have ev: "processBalanceMulticallResponse sampleImports 1 ?T sampleTokenData ?R Map.empty =
      Inr [usdcChecksummed \<mapsto> ?e]"
    by (simp add: reducer_defs sampleTokenData_def sampleImports_def sample_addresses)
  from last_storing_occurrence_wins [OF len, where env = sampleImports and chainId = 1
      and tokenData = sampleTokenData and balances = Map.empty,
      THEN conjunct1, THEN mp, OF typed, THEN conjunct1]
  obtain out where run: "processBalanceMulticallResponse sampleImports 1 ?T sampleTokenData ?R
        Map.empty = Inr out"
    and last: "\<forall>i n s d.
        i < length ?T \<and> ?R ! i = BigIntResult n \<and>
        tokenMetadata sampleImports 1 sampleTokenData (?T ! i) = Some (s, d) \<and>
        (\<forall>j. i < j \<and> j < length ?T \<and> ?T ! j = ?T ! i \<longrightarrow> ?R ! j = Undefined)
        \<longrightarrow> out (?T ! i) =
              Some \<lparr> rawAmount = n, formattedAmount = fromBigIntToTokenValue sampleImports n d,
                     symbol = s, decimals = d \<rparr>"
    by blast
  have later: "\<forall>j. 1 < j \<and> j < length ?T \<and> ?T ! j = ?T ! 1 \<longrightarrow> ?R ! j = Undefined"
  proof (intro allI impI)
    fix j assume "1 < j \<and> j < length ?T \<and> ?T ! j = ?T ! 1"
    then have "j = 2" by simp
    then show "?R ! j = Undefined" by simp
  qed
  from last [rule_format, of 1 7 "''USDC''" 6] meta later
  have "out usdcChecksummed =
      Some \<lparr> rawAmount = 7, formattedAmount = fromBigIntToTokenValue sampleImports 7 6,
             symbol = ''USDC'', decimals = 6 \<rparr>"
    by simp
  with run ev meta show ?thesis by simp
qed

text \<open>
  C10 as stated fails when the last occurrence is skipped: with results 5 and undefined
  the callback stores nothing at the last occurrence and the output holds the entry of
  the first; with results 5 and 1 the split reducer keeps the 5, the 1 being dust; with
  two undefined results there is no entry at all.
\<close>

theorem last_occurrence_counterexample:
  "balanceCallback sampleImports 1 sampleTokenData [BigIntResult 5, Undefined]
     usdcChecksummed 1 Map.empty = Inr Map.empty \<and>
   processBalanceMulticallResponse sampleImports 1 [usdcChecksummed, usdcChecksummed]
     sampleTokenData [BigIntResult 5, Undefined] Map.empty =
     Inr [usdcChecksummed \<mapsto>
            \<lparr> rawAmount = 5, formattedAmount = ''scaled'', symbol = ''USDC'', decimals = 6 \<rparr>] \<and>
   processSplitBalanceMulticallResponse sampleImports splitV1 1 [usdcChecksummed, usdcChecksummed]
     sampleTokenData [BigIntResult 5, BigIntResult 1] Map.empty =
     Inr [usdcChecksummed \<mapsto>
            \<lparr> rawAmount = 5, formattedAmount = ''scaled'', symbol = ''USDC'', decimals = 6 \<rparr>] \<and>
   processBalanceMulticallResponse sampleImports 1 [usdcChecksummed, usdcChecksummed]
     sampleTokenData [Undefined, Undefined] Map.empty = Inr Map.empty"
  by (simp add: reducer_defs sampleTokenData_def sampleImports_def sample_addresses)

section \<open>The native entry\<close>

lemma balance_native_entry:
  assumes "entryAt (\<lambda>t. t) (balanceCallback env chainId tokenData R) zeroAddress i = Inr (Some v)"
  shows "decimals v = 18 \<and> symbol v = nativeSymbol env chainId"
  using assms by (auto simp: balance_entry split: if_splits sum.splits option.splits)

lemma split_native_entry:
  assumes "entryAt (\<lambda>t. t) (splitBalanceCallback env type chainId tokenData R) zeroAddress i = Inr (Some v)"
  shows "decimals v = 18 \<and> symbol v = nativeSymbol env chainId"
  using assms by (auto simp: split_entry split: if_splits sum.splits option.splits prod.splits)

lemma balance_run_native:
  assumes run: "processBalanceMulticallResponse env chainId T tokenData R balances = Inr out"
    and inv: "\<forall>e. balances zeroAddress = Some e \<longrightarrow> decimals e = 18 \<and> symbol e = nativeSymbol env chainId"
    and e: "out zeroAddress = Some e"
  shows "decimals e = 18 \<and> symbol e = nativeSymbol env chainId"
  using forEachIndexed_origin [OF balanceCallback_stores
      run [unfolded processBalanceMulticallResponse_def] e] inv
  by (auto dest: balance_native_entry)

lemma split_run_native:
  assumes run: "processSplitBalanceMulticallResponse env type chainId T tokenData R balances = Inr out"
    and inv: "\<forall>e. balances zeroAddress = Some e \<longrightarrow> decimals e = 18 \<and> symbol e = nativeSymbol env chainId"
    and e: "out zeroAddress = Some e"
  shows "decimals e = 18 \<and> symbol e = nativeSymbol env chainId"
  using forEachIndexed_origin [OF splitBalanceCallback_stores
      run [unfolded processSplitBalanceMulticallResponse_def] e] inv
  by (auto dest: split_native_entry)

lemma balance_entry_status:
  "(\<exists>r. entryAt (\<lambda>t. t) (balanceCallback env chainId tokenData R) t i = Inr r) =
   (i < length R \<and> (\<exists>b. asBigInt (R ! i) = Inr b))"
  by (auto simp: balance_entry split: sum.splits option.splits)

lemma split_entry_status:
  "(\<exists>r. entryAt (\<lambda>t. t) (splitBalanceCallback env type chainId tokenData R) t i = Inr r) =
   (i < length R \<and>
    (if type = splitV1 then (\<exists>b. asBigInt (R ! i) = Inr b)
     else (\<exists>p. destructurePair (R ! i) = Inr p)))"
  by (auto simp: split_entry split: sum.splits option.splits prod.splits)

lemma balance_run_other_metadata:
  assumes run: "processBalanceMulticallResponse env chainId T tokenData R balances = Inr out"
  shows "\<exists>out'. processBalanceMulticallResponse env chainId T tokenData' R balances = Inr out' \<and>
               out' zeroAddress = out zeroAddress"
proof -
  let ?cb = "balanceCallback env chainId tokenData R"
  let ?cb' = "balanceCallback env chainId tokenData' R"
  note run0 = run [unfolded processBalanceMulticallResponse_def]
  have "\<forall>j<length T. \<exists>r. entryAt (\<lambda>t. t) ?cb' (T ! j) (0 + j) = Inr r"
  proof (intro allI impI)
    fix j assume "j < length T"
    from forEachIndexed_each_returns [OF balanceCallback_stores run0 this]
    have "\<exists>r. entryAt (\<lambda>t. t) ?cb (T ! j) (0 + j) = Inr r" .
    then show "\<exists>r. entryAt (\<lambda>t. t) ?cb' (T ! j) (0 + j) = Inr r"
      by (simp add: balance_entry_status)
  qed
  from forEachIndexed_returns [OF balanceCallback_stores this]
  obtain out' where run': "forEachIndexed ?cb' 0 T balances = Inr out'" by blast
  have "out' zeroAddress = out zeroAddress"
  proof (rule forEachIndexed_same_at_key [OF balanceCallback_stores balanceCallback_stores _ run0 run'])
    fix x :: Address and j assume "x = zeroAddress"
    then show "entryAt (\<lambda>t. t) ?cb' x j = entryAt (\<lambda>t. t) ?cb x j"
      by (simp add: balance_entry split: sum.splits option.splits)
  qed simp
  with run' show ?thesis by (simp add: processBalanceMulticallResponse_def)
qed

lemma split_run_other_metadata:
  assumes run: "processSplitBalanceMulticallResponse env type chainId T tokenData R balances = Inr out"
  shows "\<exists>out'. processSplitBalanceMulticallResponse env type chainId T tokenData' R balances = Inr out' \<and>
               out' zeroAddress = out zeroAddress"
proof -
  let ?cb = "splitBalanceCallback env type chainId tokenData R"
  let ?cb' = "splitBalanceCallback env type chainId tokenData' R"
  note run0 = run [unfolded processSplitBalanceMulticallResponse_def]
  have "\<forall>j<length T. \<exists>r. entryAt (\<lambda>t. t) ?cb' (T ! j) (0 + j) = Inr r"
  proof (intro allI impI)
    fix j assume "j < length T"
    from forEachIndexed_each_returns [OF splitBalanceCallback_stores run0 this]
    have "\<exists>r. entryAt (\<lambda>t. t) ?cb (T ! j) (0 + j) = Inr r" .
    then show "\<exists>r. entryAt (\<lambda>t. t) ?cb' (T ! j) (0 + j) = Inr r"
      by (auto simp: split_entry_status split: if_splits)
  qed
  from forEachIndexed_returns [OF splitBalanceCallback_stores this]
  obtain out' where run': "forEachIndexed ?cb' 0 T balances = Inr out'" by blast
  have "out' zeroAddress = out zeroAddress"
  proof (rule forEachIndexed_same_at_key [OF splitBalanceCallback_stores splitBalanceCallback_stores _ run0 run'])
    fix x :: Address and j assume "x = zeroAddress"
    then show "entryAt (\<lambda>t. t) ?cb' x j = entryAt (\<lambda>t. t) ?cb x j"
      by (simp add: split_entry split: sum.splits option.splits prod.splits)
  qed simp
  with run' show ?thesis by (simp add: processSplitBalanceMulticallResponse_def)
qed

lemma fetchActiveBalances_native:
  assumes "fetchActiveBalances env chainId accountAddress publicClient T = Inr out"
    and "out zeroAddress = Some e"
  shows "decimals e = 18 \<and> symbol e = nativeSymbol env chainId"
proof -
  from assms(1) obtain tokenData R where
    "processBalanceMulticallResponse env chainId T tokenData R Map.empty = Inr out"
    by (auto simp: fetchActiveBalances_def Let_def split: sum.splits)
  from balance_run_native [OF this _ assms(2)] show ?thesis by simp
qed

lemma fetchSplitActiveBalances_native:
  assumes "fetchSplitActiveBalances env type chainId splitAddress publicClient T = Inr out"
    and "out zeroAddress = Some e"
  shows "decimals e = 18 \<and> symbol e = nativeSymbol env chainId"
proof -
  from assms(1) obtain T' tokenData R where
    "processSplitBalanceMulticallResponse env type chainId T' tokenData R Map.empty = Inr out"
    by (auto simp: fetchSplitActiveBalances_def Let_def split: sum.splits)
  from split_run_native [OF this _ assms(2)] show ?thesis by simp
qed

section \<open>The metadata resolver\<close>

lemma mapThrowing_total:
  assumes "\<forall>x\<in>set xs. f x = Inr (g x)"
  shows "mapThrowing f xs = Inr (map g xs)"
  using assms by (induction xs) simp_all

lemma getTokenDataCalls_length:
  assumes "getTokenDataCalls ts = Inr calls"
  shows "length calls = 2 * length ts \<and> zeroAddress \<notin> set ts"
proof -
  have "\<And>cs. mapThrowing
             (\<lambda>token.
                if token = zeroAddress then Inl CannotFetchDataForAddressZero
                else Inr [ \<lparr> callAddress = token, abi = ''erc20Abi'', functionName = ''symbol'',
                             args = [] \<rparr>,
                           \<lparr> callAddress = token, abi = ''erc20Abi'', functionName = ''decimals'',
                             args = [] \<rparr> ]) ts = Inr cs \<Longrightarrow>
          length (concat cs) = 2 * length ts \<and> zeroAddress \<notin> set ts"
  proof (induction ts)
    case Nil
    then show ?case by simp
  next
    case (Cons t ts)
    then show ?case by (auto split: if_splits sum.splits)
  qed
  with assms show ?thesis
    by (auto simp: getTokenDataCalls_def split: sum.splits)
qed

lemma getTokenDataCalls_filtered:
  "\<exists>calls. getTokenDataCalls (filter (\<lambda>token. token \<noteq> zeroAddress) tokens) = Inr calls"
proof -
  let ?f = "(\<lambda>token.
                if token = zeroAddress then Inl CannotFetchDataForAddressZero
                else Inr [ \<lparr> callAddress = token, abi = ''erc20Abi'', functionName = ''symbol'',
                             args = [] \<rparr>,
                           \<lparr> callAddress = token, abi = ''erc20Abi'', functionName = ''decimals'',
                             args = [] \<rparr> ])"
  let ?g = "(\<lambda>token. [ \<lparr> callAddress = token, abi = ''erc20Abi'', functionName = ''symbol'',
                             args = [] \<rparr>,
                           \<lparr> callAddress = token, abi = ''erc20Abi'', functionName = ''decimals'',
                             args = [] \<rparr> ])"
  have "mapThrowing ?f (filter (\<lambda>token. token \<noteq> zeroAddress) tokens) =
        Inr (map ?g (filter (\<lambda>token. token \<noteq> zeroAddress) tokens))"
    by (rule mapThrowing_total) simp
  then show ?thesis by (simp add: getTokenDataCalls_def)
qed

lemma tokenData_entry:
  "entryAt (\<lambda>t. t) (tokenDataCallback R) t i =
     (if length R \<le> i * 2 then Inl TypeError
      else case asString (R ! (i * 2)) of
        Inl e \<Rightarrow> Inl e
      | Inr sy \<Rightarrow>
          if length R \<le> i * 2 + 1 then Inl TypeError
          else case asNumber (R ! (i * 2 + 1)) of
            Inl e \<Rightarrow> Inl e
          | Inr de \<Rightarrow>
              (case sy of
                 None \<Rightarrow> Inr None
               | Some s \<Rightarrow>
                   (case de of
                      None \<Rightarrow> Inr None
                    | Some d \<Rightarrow>
                        Inr (Some \<lparr> address = t, tokenSymbol = Some s, tokenDecimals = Some d \<rparr>))))"
  unfolding entryAt_def tokenDataCallback_def
  by (auto split: sum.splits option.splits)

lemma asString_Some: "asString r = Inr (Some s) \<longleftrightarrow> r = StringResult s"
  by (cases r) auto

lemma asNumber_Some: "asNumber r = Inr (Some n) \<longleftrightarrow> r = NumberResult n"
  by (cases r) auto

lemma tokenData_entry_Some_iff:
  assumes "i * 2 + 1 < length R"
  shows "(entryAt (\<lambda>t. t) (tokenDataCallback R) t i = Inr (Some data)) =
         (\<exists>s d. R ! (i * 2) = StringResult s \<and> R ! (i * 2 + 1) = NumberResult d \<and>
                data = \<lparr> address = t, tokenSymbol = Some s, tokenDecimals = Some d \<rparr>)"
  using assms
  by (auto simp: tokenData_entry asString_Some asNumber_Some split: sum.splits option.splits)

text \<open>
  C6. Let the multicall answer the symbol and decimals calls of the tokens other than the
  native sentinel with one result per call, each symbol result a string or undefined,
  each decimals result a number or undefined. Then \<^verbatim>\<open>fetchTokenData\<close> returns a mapping
  and raises no error; a token is in the mapping exactly when it occurs in the list at an
  index whose symbol result and decimals result are both defined; and every entry holds
  the token with the symbol and the decimals of such an index.
\<close>

theorem fetchTokenData_both_defined:
  assumes calls: "getTokenDataCalls (filter (\<lambda>token. token \<noteq> zeroAddress) tokens) = Inr calls"
    and resp: "multicall publicClient calls = Inr R"
    and len: "length R = length calls"
    and typed: "\<forall>i<length (filter (\<lambda>token. token \<noteq> zeroAddress) tokens).
                  (R ! (i * 2) = Undefined \<or> (\<exists>s. R ! (i * 2) = StringResult s)) \<and>
                  (R ! (i * 2 + 1) = Undefined \<or> (\<exists>d. R ! (i * 2 + 1) = NumberResult d))"
  shows "\<exists>tokenData. fetchTokenData tokens publicClient = Inr tokenData \<and>
           (\<forall>t. (tokenData t \<noteq> None) =
                 (\<exists>i<length (filter (\<lambda>token. token \<noteq> zeroAddress) tokens).
                    filter (\<lambda>token. token \<noteq> zeroAddress) tokens ! i = t \<and>
                    (\<exists>s d. R ! (i * 2) = StringResult s \<and> R ! (i * 2 + 1) = NumberResult d))) \<and>
           (\<forall>t data. tokenData t = Some data \<longrightarrow>
                 (\<exists>i<length (filter (\<lambda>token. token \<noteq> zeroAddress) tokens).
                    filter (\<lambda>token. token \<noteq> zeroAddress) tokens ! i = t \<and>
                    (\<exists>s d. R ! (i * 2) = StringResult s \<and> R ! (i * 2 + 1) = NumberResult d \<and>
                       data = \<lparr> address = t, tokenSymbol = Some s, tokenDecimals = Some d \<rparr>)))"
proof -
  let ?F = "filter (\<lambda>token. token \<noteq> zeroAddress) tokens"
  let ?cb = "tokenDataCallback R"
  from getTokenDataCalls_length [OF calls] len have lenR: "length R = 2 * length ?F" by simp
  have inb: "\<And>i. i < length ?F \<Longrightarrow> i * 2 + 1 < length R" using lenR by simp
  have eq: "fetchTokenData tokens publicClient = forEachIndexed ?cb 0 ?F Map.empty"
    using calls resp by (simp add: fetchTokenData_def)
  have "\<forall>j<length ?F. \<exists>r. entryAt (\<lambda>t. t) ?cb (?F ! j) (0 + j) = Inr r"
  proof (intro allI impI)
    fix j assume j: "j < length ?F"
    from inb [OF j] typed [rule_format, OF j]
    show "\<exists>r. entryAt (\<lambda>t. t) ?cb (?F ! j) (0 + j) = Inr r"
      by (auto simp: tokenData_entry)
  qed
  from forEachIndexed_returns [OF tokenDataCallback_stores this]
  obtain td where run: "forEachIndexed ?cb 0 ?F Map.empty = Inr td" by blast
  have ent: "\<And>i t. i < length ?F \<Longrightarrow>
      (\<exists>v. entryAt (\<lambda>t. t) ?cb t i = Inr (Some v)) =
      (\<exists>s d. R ! (i * 2) = StringResult s \<and> R ! (i * 2 + 1) = NumberResult d)"
    by (auto simp: tokenData_entry_Some_iff [OF inb])
  have dom: "\<forall>t. (td t \<noteq> None) =
      (\<exists>i<length ?F. ?F ! i = t \<and>
         (\<exists>s d. R ! (i * 2) = StringResult s \<and> R ! (i * 2 + 1) = NumberResult d))"
  proof
    fix t
    show "(td t \<noteq> None) =
      (\<exists>i<length ?F. ?F ! i = t \<and>
         (\<exists>s d. R ! (i * 2) = StringResult s \<and> R ! (i * 2 + 1) = NumberResult d))"
      using forEachIndexed_dom_iff [OF tokenDataCallback_stores run, of t]
      by (simp add: ent cong: conj_cong)
  qed
  have val: "\<forall>t data. td t = Some data \<longrightarrow>
      (\<exists>i<length ?F. ?F ! i = t \<and>
         (\<exists>s d. R ! (i * 2) = StringResult s \<and> R ! (i * 2 + 1) = NumberResult d \<and>
            data = \<lparr> address = t, tokenSymbol = Some s, tokenDecimals = Some d \<rparr>))"
  proof (intro allI impI)
    fix t data assume "td t = Some data"
    from forEachIndexed_origin [OF tokenDataCallback_stores run this]
    obtain j where j: "j < length ?F" "?F ! j = t"
      "entryAt (\<lambda>t. t) ?cb (?F ! j) (0 + j) = Inr (Some data)" by auto
    from j(3) have "\<exists>s d. R ! (j * 2) = StringResult s \<and> R ! (j * 2 + 1) = NumberResult d \<and>
            data = \<lparr> address = t, tokenSymbol = Some s, tokenDecimals = Some d \<rparr>"
      by (simp add: tokenData_entry_Some_iff [OF inb [OF j(1)]] j(2))
    with j show "\<exists>i<length ?F. ?F ! i = t \<and>
         (\<exists>s d. R ! (i * 2) = StringResult s \<and> R ! (i * 2 + 1) = NumberResult d \<and>
            data = \<lparr> address = t, tokenSymbol = Some s, tokenDecimals = Some d \<rparr>)"
      by blast
  qed
  from eq run dom val show ?thesis by simp
qed

theorem fetchTokenData_both_defined_witness:
  "fetchTokenData [usdcChecksummed, zeroAddress, daiChecksummed] partialClient =
     Inr [usdcChecksummed \<mapsto>
            \<lparr> address = usdcChecksummed, tokenSymbol = Some ''USDC'', tokenDecimals = Some 6 \<rparr>]"
proof -
  let ?tokens = "[usdcChecksummed, zeroAddress, daiChecksummed]"
  let ?calls = "[\<lparr> callAddress = usdcChecksummed, abi = ''erc20Abi'', functionName = ''symbol'',
                    args = [] \<rparr>,
                 \<lparr> callAddress = usdcChecksummed, abi = ''erc20Abi'', functionName = ''decimals'',
                    args = [] \<rparr>,
                 \<lparr> callAddress = daiChecksummed, abi = ''erc20Abi'', functionName = ''symbol'',
                    args = [] \<rparr>,
                 \<lparr> callAddress = daiChecksummed, abi = ''erc20Abi'', functionName = ''decimals'',
                    args = [] \<rparr>]"
  let ?R = "[StringResult ''USDC'', NumberResult 6, StringResult ''USDC'', Undefined]"
  have flt: "filter (\<lambda>token. token \<noteq> zeroAddress) ?tokens = [usdcChecksummed, daiChecksummed]"
    by (simp add: sample_addresses)
  have calls: "getTokenDataCalls (filter (\<lambda>token. token \<noteq> zeroAddress) ?tokens) = Inr ?calls"
    unfolding flt by (simp add: getTokenDataCalls_def sample_addresses)
  have resp: "multicall partialClient ?calls = Inr ?R"
    by (simp add: partialClient_def sampleAnswer_def sample_addresses)
  have len: "length ?R = length ?calls" by simp
  have typed: "\<forall>i<length (filter (\<lambda>token. token \<noteq> zeroAddress) ?tokens).
                  (?R ! (i * 2) = Undefined \<or> (\<exists>s. ?R ! (i * 2) = StringResult s)) \<and>
                  (?R ! (i * 2 + 1) = Undefined \<or> (\<exists>d. ?R ! (i * 2 + 1) = NumberResult d))"
    unfolding flt by (simp add: less_Suc_eq)
  from fetchTokenData_both_defined [OF calls resp len typed]
  obtain td where td: "fetchTokenData ?tokens partialClient = Inr td"
    and dom: "\<forall>t. (td t \<noteq> None) =
                 (\<exists>i<length (filter (\<lambda>token. token \<noteq> zeroAddress) ?tokens).
                    filter (\<lambda>token. token \<noteq> zeroAddress) ?tokens ! i = t \<and>
                    (\<exists>s d. ?R ! (i * 2) = StringResult s \<and> ?R ! (i * 2 + 1) = NumberResult d))"
    by blast
  have "fetchTokenData ?tokens partialClient =
     Inr [usdcChecksummed \<mapsto>
            \<lparr> address = usdcChecksummed, tokenSymbol = Some ''USDC'', tokenDecimals = Some 6 \<rparr>]"
    using calls resp unfolding fetchTokenData_def flt Let_def
    by (simp add: tokenDataCallback_def)
  with td show ?thesis by simp
qed

section \<open>The pagination loop\<close>

lemma promisesArray_truthy:
  "truthy pk \<Longrightarrow> promisesArray account pk = [TokenBalancesRequest account pk]"
  by (simp add: promisesArray_def)

lemma promisesArray_first:
  "promisesArray account (Some []) = [TokenBalancesRequest account None, NativeBalanceRequest account]"
  by (simp add: promisesArray_def truthy_def)

lemma alchemyLoop_from:
  assumes "n - k = d" "k \<le> n"
    and "alchemyStateAfter env chainId account client k = Inr (bk, pkk)"
    and "\<forall>j. k \<le> j \<and> j < n \<longrightarrow> passContinues env chainId account client j"
    and "\<not> passContinues env chainId account client n"
  shows "alchemyLoop env chainId account client k pkk bk sent =
           Some (outcomeAfter env chainId account client n,
                 sent @ promisesArray account pkk @
                 map (\<lambda>j. TokenBalancesRequest account (cursorAfter env chainId account client j))
                   [k..<n])"
  using assms
proof (induction d arbitrary: k bk pkk sent)
  case 0
  then have kn: "k = n" by simp
  from 0(3) have pass: "alchemyStateAfter env chainId account client (Suc n) =
      alchemyPass env chainId account client n pkk bk"
    by (simp add: kn)
  show ?case
    using 0(5) pass
    by (subst alchemyLoop.simps)
       (auto simp: kn passContinues_def outcomeAfter_def split: sum.splits prod.splits)
next
  case (Suc d)
  then have lt: "k < n" by simp
  from Suc(4) have pass: "alchemyStateAfter env chainId account client (Suc k) =
      alchemyPass env chainId account client k pkk bk"
    by simp
  from Suc(5) lt have "passContinues env chainId account client k" by simp
  then obtain b' nk where st: "alchemyStateAfter env chainId account client (Suc k) = Inr (b', nk)"
    and tr: "truthy nk"
    by (auto simp: passContinues_def split: sum.splits prod.splits)
  have cur: "cursorAfter env chainId account client k = nk"
    using st by (simp add: cursorAfter_def)
  have ih: "alchemyLoop env chainId account client (Suc k) nk b' (sent @ promisesArray account pkk) =
      Some (outcomeAfter env chainId account client n,
            (sent @ promisesArray account pkk) @ promisesArray account nk @
            map (\<lambda>j. TokenBalancesRequest account (cursorAfter env chainId account client j))
              [Suc k..<n])"
  proof (rule Suc.IH)
    show "n - Suc k = d" using Suc(2) by simp
    show "Suc k \<le> n" using lt by simp
    show "alchemyStateAfter env chainId account client (Suc k) = Inr (b', nk)" by fact
    show "\<forall>j. Suc k \<le> j \<and> j < n \<longrightarrow> passContinues env chainId account client j"
      using Suc(5) by simp
    show "\<not> passContinues env chainId account client n" by fact
  qed
  have "alchemyLoop env chainId account client k pkk bk sent =
        alchemyLoop env chainId account client (Suc k) nk b' (sent @ promisesArray account pkk)"
  proof -
    from st pass have "alchemyPass env chainId account client k pkk bk = Inr (b', nk)" by simp
    then show ?thesis using tr by (subst alchemyLoop.simps) simp
  qed
  also note ih
  finally show ?case
    using lt by (simp add: promisesArray_truthy [OF tr] cur upt_conv_Cons)
qed

lemma alchemyLoop_returns_stops:
  assumes "alchemyLoop env chainId account client k pkk bk sent = Some y"
  shows "alchemyStateAfter env chainId account client k = Inr (bk, pkk) \<longrightarrow>
         (\<exists>j. \<not> passContinues env chainId account client j)"
proof (rule alchemyLoop.raw_induct [where P =
    "\<lambda>env chainId account client k pkk bk sent y.
       alchemyStateAfter env chainId account client k = Inr (bk, pkk) \<longrightarrow>
       (\<exists>j. \<not> passContinues env chainId account client j)", OF _ assms])
  fix loop env chainId account client k pkk bk sent y
  assume IH: "\<And>env chainId account client k pkk bk sent y.
      loop env chainId account client k pkk bk sent = Some y \<Longrightarrow>
      alchemyStateAfter env chainId account client k = Inr (bk, pkk) \<longrightarrow>
      (\<exists>j. \<not> passContinues env chainId account client j)"
    and body: "(case alchemyPass env chainId account client k pkk bk of
        Inl e \<Rightarrow> Some (Inl e, sent @ promisesArray account pkk)
      | Inr (balances', nextKey) \<Rightarrow>
          if truthy nextKey
          then loop env chainId account client (Suc k) nextKey balances'
                 (sent @ promisesArray account pkk)
          else Some (Inr balances', sent @ promisesArray account pkk)) = Some y"
  show "alchemyStateAfter env chainId account client k = Inr (bk, pkk) \<longrightarrow>
        (\<exists>j. \<not> passContinues env chainId account client j)"
  proof
    assume st: "alchemyStateAfter env chainId account client k = Inr (bk, pkk)"
    then have pass: "alchemyStateAfter env chainId account client (Suc k) =
        alchemyPass env chainId account client k pkk bk" by simp
    show "\<exists>j. \<not> passContinues env chainId account client j"
    proof (cases "passContinues env chainId account client k")
      case False
      then show ?thesis by blast
    next
      case True
      then obtain b' nk where st': "alchemyStateAfter env chainId account client (Suc k) = Inr (b', nk)"
        and tr: "truthy nk"
        by (auto simp: passContinues_def split: sum.splits prod.splits)
      from st' pass have "alchemyPass env chainId account client k pkk bk = Inr (b', nk)" by simp
      with body tr have "loop env chainId account client (Suc k) nk b'
          (sent @ promisesArray account pkk) = Some y" by simp
      from IH [OF this] st' show ?thesis by blast
    qed
  qed
qed

lemmas pass_defs =
  alchemyPass_def fetchTokenData_def getTokenDataCalls_def tokenDataCallback_def
  alchemyBalanceCallback_def truthy_def nativeSymbol_def

lemmas sample_defs =
  sampleClient_def samplePages_def sampleAnswer_def sampleImports_def sampleGetAddress_def
  sampleBigInt_def

text \<open>
  C7. Let the client be an Alchemy client. If the passes before pass \<open>n\<close> all end
  with a truthy cursor and pass \<open>n\<close> does not (its page has no cursor or an empty one,
  or the pass throws), then \<^verbatim>\<open>fetchContractBalancesWithAlchemy\<close> ends after pass \<open>n\<close>
  with that pass's mapping or exception, and the requests it sent are, in this order:
  the token-balance request without cursor and the native-balance request of the first
  pass, then one token-balance request for each further pass, carrying the cursor of the
  page before. So the native balance is requested once, in the first pass, and the
  token balances once per page. The loop has no other way out: the function does not
  return exactly when every pass ends with a truthy cursor.
\<close>

theorem pagination_requests_and_termination:
  assumes "isAlchemyPublicClient client"
  shows "((\<forall>k<n. passContinues env chainId account client k) \<and>
          \<not> passContinues env chainId account client n \<longrightarrow>
            fetchContractBalancesWithAlchemy env chainId account client =
              Some (outcomeAfter env chainId account client n,
                    TokenBalancesRequest account None # NativeBalanceRequest account #
                    map (\<lambda>k. TokenBalancesRequest account (cursorAfter env chainId account client k))
                      [0..<n])) \<and>
         ((fetchContractBalancesWithAlchemy env chainId account client = None) =
            (\<forall>k. passContinues env chainId account client k))"
proof (intro conjI impI)
  assume a: "(\<forall>k<n. passContinues env chainId account client k) \<and>
          \<not> passContinues env chainId account client n"
  have "alchemyLoop env chainId account client 0 (Some []) Map.empty [] =
      Some (outcomeAfter env chainId account client n,
            [] @ promisesArray account (Some []) @
            map (\<lambda>j. TokenBalancesRequest account (cursorAfter env chainId account client j)) [0..<n])"
    by (rule alchemyLoop_from [where d = n]) (use a in simp_all)
  then show "fetchContractBalancesWithAlchemy env chainId account client =
              Some (outcomeAfter env chainId account client n,
                    TokenBalancesRequest account None # NativeBalanceRequest account #
                    map (\<lambda>k. TokenBalancesRequest account (cursorAfter env chainId account client k))
                      [0..<n])"
    using assms by (simp add: fetchContractBalancesWithAlchemy_def promisesArray_first)
next
  show "(fetchContractBalancesWithAlchemy env chainId account client = None) =
            (\<forall>k. passContinues env chainId account client k)"
  proof
    assume none: "fetchContractBalancesWithAlchemy env chainId account client = None"
    show "\<forall>k. passContinues env chainId account client k"
    proof (rule ccontr)
      assume "\<not> (\<forall>k. passContinues env chainId account client k)"
      then obtain m where "\<not> passContinues env chainId account client m" by blast
      then obtain n where n: "\<not> passContinues env chainId account client n"
        and least: "\<forall>k<n. passContinues env chainId account client k"
        using exists_least_iff [of "\<lambda>k. \<not> passContinues env chainId account client k"] by blast
      have "alchemyLoop env chainId account client 0 (Some []) Map.empty [] =
        Some (outcomeAfter env chainId account client n,
            [] @ promisesArray account (Some []) @
            map (\<lambda>j. TokenBalancesRequest account (cursorAfter env chainId account client j)) [0..<n])"
        by (rule alchemyLoop_from [where d = n]) (use n least in simp_all)
      with none assms show False by (simp add: fetchContractBalancesWithAlchemy_def)
    qed
  next
    assume all: "\<forall>k. passContinues env chainId account client k"
    show "fetchContractBalancesWithAlchemy env chainId account client = None"
    proof (cases "fetchContractBalancesWithAlchemy env chainId account client")
      case None
      then show ?thesis .
    next
      case (Some y)
      with assms have "alchemyLoop env chainId account client 0 (Some []) Map.empty [] = Some y"
        by (simp add: fetchContractBalancesWithAlchemy_def)
      from alchemyLoop_returns_stops [OF this] all show ?thesis by simp
    qed
  qed
qed

theorem pagination_requests_and_termination_witness:
  "fetchContractBalancesWithAlchemy sampleImports 137 sampleAccount sampleClient =
     Some (Inr [zeroAddress \<mapsto>
                  \<lparr> rawAmount = 16, formattedAmount = ''scaled'', symbol = ''MATIC'',
                    decimals = 18 \<rparr>,
                usdcChecksummed \<mapsto>
                  \<lparr> rawAmount = 5, formattedAmount = ''scaled'', symbol = ''USDC'',
                    decimals = 6 \<rparr>,
                daiChecksummed \<mapsto>
                  \<lparr> rawAmount = 16, formattedAmount = ''scaled'', symbol = ''USDC'',
                    decimals = 6 \<rparr>],
           [TokenBalancesRequest sampleAccount None, NativeBalanceRequest sampleAccount,
            TokenBalancesRequest sampleAccount (Some ''A''),
            TokenBalancesRequest sampleAccount (Some ''B'')]) \<and>
   fetchContractBalancesWithAlchemy sampleImports 137 sampleAccount endlessClient = None"
proof -
  let ?b1 = "[zeroAddress \<mapsto>
                \<lparr> rawAmount = 16, formattedAmount = ''scaled'', symbol = ''MATIC'',
                  decimals = 18 \<rparr>]"
  let ?b2 = "?b1(usdcChecksummed \<mapsto>
                \<lparr> rawAmount = 5, formattedAmount = ''scaled'', symbol = ''USDC'',
                  decimals = 6 \<rparr>)"
  let ?b3 = "?b2(daiChecksummed \<mapsto>
                \<lparr> rawAmount = 16, formattedAmount = ''scaled'', symbol = ''USDC'',
                  decimals = 6 \<rparr>)"
  have alch: "isAlchemyPublicClient sampleClient" "isAlchemyPublicClient endlessClient"
    by (simp_all add: sampleClient_def endlessClient_def)
  have s1: "alchemyStateAfter sampleImports 137 sampleAccount sampleClient (Suc 0) =
      Inr (?b1, Some ''A'')"
    by (simp add: pass_defs sample_defs)
  have s2: "alchemyStateAfter sampleImports 137 sampleAccount sampleClient (Suc (Suc 0)) =
      Inr (?b2, Some ''B'')"
    by (simp add: s1 del: alchemyStateAfter.simps(1))
       (simp add: pass_defs sample_defs sample_addresses)
  have s3: "alchemyStateAfter sampleImports 137 sampleAccount sampleClient (Suc (Suc (Suc 0))) =
      Inr (?b3, None)"
    by (simp add: s2 del: alchemyStateAfter.simps(1))
       (simp add: pass_defs sample_defs sample_addresses)
  have run: "(\<forall>k<2. passContinues sampleImports 137 sampleAccount sampleClient k) \<and>
      \<not> passContinues sampleImports 137 sampleAccount sampleClient 2"
    using s1 s2 s3
    by (simp add: passContinues_def less_Suc_eq numeral_2_eq_2 truthy_def
          del: alchemyStateAfter.simps)
  have out: "outcomeAfter sampleImports 137 sampleAccount sampleClient 2 = Inr ?b3"
    using s3 by (simp add: outcomeAfter_def numeral_2_eq_2 del: alchemyStateAfter.simps)
  have cur: "map (\<lambda>k. TokenBalancesRequest sampleAccount
                   (cursorAfter sampleImports 137 sampleAccount sampleClient k)) [0..<2] =
      [TokenBalancesRequest sampleAccount (Some ''A''),
       TokenBalancesRequest sampleAccount (Some ''B'')]"
    using s1 s2 by (simp add: cursorAfter_def numeral_2_eq_2 upt_rec del: alchemyStateAfter.simps)
  have endless: "\<And>k. alchemyStateAfter sampleImports 137 sampleAccount endlessClient (Suc k) =
      Inr (?b1, Some ''A'')"
  proof -
    fix k
    show "alchemyStateAfter sampleImports 137 sampleAccount endlessClient (Suc k) =
      Inr (?b1, Some ''A'')"
    proof (induction k)
      case 0
      show ?case by (simp add: pass_defs endlessClient_def sample_defs) (simp add: fun_eq_iff)
    next
      case (Suc k)
      have pass: "alchemyPass sampleImports 137 sampleAccount endlessClient (Suc k) (Some ''A'') ?b1 =
          Inr (?b1, Some ''A'')"
        by (simp add: pass_defs endlessClient_def sample_defs)
      show ?case
        by (subst alchemyStateAfter.simps(2)) (simp only: Suc sum.case prod.case pass)
    qed
  qed
  have all: "\<forall>k. passContinues sampleImports 137 sampleAccount endlessClient k"
    by (simp add: passContinues_def endless truthy_def del: alchemyStateAfter.simps)
  from pagination_requests_and_termination [OF alch(1), of 2 sampleImports 137 sampleAccount,
      THEN conjunct1, rule_format, OF run]
  have a: "fetchContractBalancesWithAlchemy sampleImports 137 sampleAccount sampleClient =
      Some (Inr ?b3,
            [TokenBalancesRequest sampleAccount None, NativeBalanceRequest sampleAccount,
             TokenBalancesRequest sampleAccount (Some ''A''),
             TokenBalancesRequest sampleAccount (Some ''B'')])"
    by (simp only: out cur)
  from pagination_requests_and_termination [OF alch(2), of 0 sampleImports 137 sampleAccount,
      THEN conjunct2] all
  have b: "fetchContractBalancesWithAlchemy sampleImports 137 sampleAccount endlessClient = None"
    by simp
  from a b show ?thesis by simp
qed

section \<open>Keys and the native entry of the balance-fetch operations\<close>

lemma fetchTokenData_keys:
  assumes "fetchTokenData tokens publicClient = Inr tokenData" and "tokenData t = Some data"
  shows "t \<in> set tokens \<and> t \<noteq> zeroAddress"
proof -
  let ?F = "filter (\<lambda>token. token \<noteq> zeroAddress) tokens"
  from assms(1) obtain R where run: "forEachIndexed (tokenDataCallback R) 0 ?F Map.empty = Inr tokenData"
    by (auto simp: fetchTokenData_def Let_def split: sum.splits)
  from forEachIndexed_origin [OF tokenDataCallback_stores run assms(2)]
  obtain j where "j < length ?F" "?F ! j = t" by auto
  then have "t \<in> set ?F" using nth_mem by blast
  then show ?thesis by simp
qed

lemma alchemyBalanceCallback_stores:
  "stores (formattedAddressOf env) (alchemyBalanceCallback env erc20TokenData)"
  unfolding stores_def entryAt_def alchemyBalanceCallback_def formattedAddressOf_def
  by (auto simp: Let_def split: sum.splits option.splits)

lemma alchemy_entry_source:
  assumes "entryAt (formattedAddressOf env) (alchemyBalanceCallback env erc20TokenData) balanceData i =
           Inr (Some v)"
  shows "\<exists>data. erc20TokenData (contractAddress balanceData) = Some data \<and>
           getAddress env (contractAddress balanceData) = Inr (formattedAddressOf env balanceData)"
  using assms unfolding entryAt_def alchemyBalanceCallback_def formattedAddressOf_def
  by (auto simp: Let_def split: sum.splits option.splits)

lemma alchemyPass_parts:
  assumes "alchemyPass env chainId account client k pk b = Inr (b', pk')"
  obtains page :: AlchemyPage and b1 td where
    "b1 = b \<or> (\<exists>eth. b1 = b(zeroAddress \<mapsto>
            \<lparr> rawAmount = eth, formattedAmount = fromBigIntToTokenValue env eth 18,
              symbol = nativeSymbol env chainId, decimals = 18 \<rparr>))"
    "fetchTokenData (map contractAddress (tokenBalances page)) client = Inr td"
    "forEachIndexed (alchemyBalanceCallback env td) 0 (tokenBalances page) b1 = Inr b'"
proof -
  from assms obtain page where
    page: "getTokenBalances client k account (if truthy pk then pk else None) = Inr page"
    unfolding alchemyPass_def by (cases "getTokenBalances client k account (if truthy pk then pk else None)") auto
  let ?first = "(if \<not> truthy pk then
                   (case getBalance client account of
                      Inl e \<Rightarrow> Inl e
                    | Inr ethBalance \<Rightarrow>
                        Inr (b(zeroAddress \<mapsto>
                               \<lparr> rawAmount = ethBalance,
                                 formattedAmount = fromBigIntToTokenValue env ethBalance 18,
                                 symbol = nativeSymbol env chainId,
                                 decimals = 18 \<rparr>)))
                 else Inr b)"
  from assms page obtain b1 where first: "?first = Inr b1"
    unfolding alchemyPass_def by (cases ?first) auto
  then have b1: "b1 = b \<or> (\<exists>eth. b1 = b(zeroAddress \<mapsto>
            \<lparr> rawAmount = eth, formattedAmount = fromBigIntToTokenValue env eth 18,
              symbol = nativeSymbol env chainId, decimals = 18 \<rparr>))"
    by (auto split: if_splits sum.splits)
  from assms page first obtain td where
    td: "fetchTokenData (map contractAddress (tokenBalances page)) client = Inr td"
    unfolding alchemyPass_def
    by (cases "fetchTokenData (map contractAddress (tokenBalances page)) client") auto
  from assms page first td have
    "forEachIndexed (alchemyBalanceCallback env td) 0 (tokenBalances page) b1 = Inr b'"
    unfolding alchemyPass_def
    by (cases "forEachIndexed (alchemyBalanceCallback env td) 0 (tokenBalances page) b1") auto
  with b1 td show ?thesis by (rule that)
qed

lemma alchemyPass_keys:
  assumes pass: "alchemyPass env chainId account client k pk b = Inr (b', pk')"
    and v: "b' t = Some v"
  shows "b t = Some v \<or>
         (t = zeroAddress \<and> decimals v = 18 \<and> symbol v = nativeSymbol env chainId) \<or>
         (\<exists>c. c \<noteq> zeroAddress \<and> getAddress env c = Inr t)"
proof -
  from pass obtain page :: AlchemyPage and b1 td where
    b1: "b1 = b \<or> (\<exists>eth. b1 = b(zeroAddress \<mapsto>
            \<lparr> rawAmount = eth, formattedAmount = fromBigIntToTokenValue env eth 18,
              symbol = nativeSymbol env chainId, decimals = 18 \<rparr>))"
    and td: "fetchTokenData (map contractAddress (tokenBalances page)) client = Inr td"
    and run: "forEachIndexed (alchemyBalanceCallback env td) 0 (tokenBalances page) b1 = Inr b'"
    by (rule alchemyPass_parts)
  from forEachIndexed_origin [OF alchemyBalanceCallback_stores run v]
  consider "b1 t = Some v"
    | j where "j < length (tokenBalances page)"
        "formattedAddressOf env (tokenBalances page ! j) = t"
        "entryAt (formattedAddressOf env) (alchemyBalanceCallback env td)
           (tokenBalances page ! j) (0 + j) = Inr (Some v)"
    by blast
  then show ?thesis
  proof cases
    case 1
    with b1 show ?thesis by (auto split: if_splits)
  next
    case 2
    from alchemy_entry_source [OF 2(3)] 2(2) obtain data where
      d: "td (contractAddress (tokenBalances page ! j)) = Some data"
      and g: "getAddress env (contractAddress (tokenBalances page ! j)) = Inr t"
      by auto
    from fetchTokenData_keys [OF td d] have "contractAddress (tokenBalances page ! j) \<noteq> zeroAddress"
      by simp
    with g show ?thesis by blast
  qed
qed

lemma alchemyLoop_invariant:
  assumes run: "alchemyLoop env chainId account client k pk b sent = Some (Inr out, log)"
    and step: "\<And>k pk b b' pk'. I b \<Longrightarrow>
                 alchemyPass env chainId account client k pk b = Inr (b', pk') \<Longrightarrow> I b'"
    and init: "I b"
  shows "I out"
proof -
  let ?Q = "\<lambda>env chainId account client (k :: nat) (pk :: string option) b (sent :: Request list)
              (y :: (error + FormattedTokenBalances) \<times> Request list).
      (\<forall>k pk b b' pk'. I b \<longrightarrow>
          alchemyPass env chainId account client k pk b = Inr (b', pk') \<longrightarrow> I b') \<longrightarrow>
      I b \<longrightarrow> (\<forall>out log. y = (Inr out, log) \<longrightarrow> I out)"
  have "?Q env chainId account client k pk b sent (Inr out, log)"
  proof (rule alchemyLoop.raw_induct [where P = ?Q, OF _ run])
    fix loop env chainId account client k pk b sent y
    assume IH: "\<And>env chainId account client k pk b sent y.
        loop env chainId account client k pk b sent = Some y \<Longrightarrow>
        ?Q env chainId account client k pk b sent y"
      and body: "(case alchemyPass env chainId account client k pk b of
        Inl e \<Rightarrow> Some (Inl e, sent @ promisesArray account pk)
      | Inr (balances', nextKey) \<Rightarrow>
          if truthy nextKey
          then loop env chainId account client (Suc k) nextKey balances'
                 (sent @ promisesArray account pk)
          else Some (Inr balances', sent @ promisesArray account pk)) = Some y"
    show "?Q env chainId account client k pk b sent y"
    proof (intro impI allI)
      fix out log
      assume st: "\<forall>k pk b b' pk'. I b \<longrightarrow>
          alchemyPass env chainId account client k pk b = Inr (b', pk') \<longrightarrow> I b'"
        and ib: "I b" and y: "y = (Inr out, log)"
      show "I out"
      proof (cases "alchemyPass env chainId account client k pk b")
        case (Inl e)
        with body y show ?thesis by simp
      next
        case (Inr r)
        obtain b' nk where r: "r = (b', nk)" by (cases r)
        from st ib Inr r have ib': "I b'" by blast
        show ?thesis
        proof (cases "truthy nk")
          case True
          with body Inr r have "loop env chainId account client (Suc k) nk b'
              (sent @ promisesArray account pk) = Some y" by simp
          from IH [OF this] st ib' y show ?thesis by blast
        next
          case False
          with body Inr r y ib' show ?thesis by simp
        qed
      qed
    qed
  qed
  with step init show ?thesis by blast
qed

lemma alchemy_native:
  assumes run: "fetchContractBalancesWithAlchemy env chainId account client = Some (Inr out, log)"
    and zero: "\<forall>c. getAddress env c = Inr zeroAddress \<longrightarrow> c = zeroAddress"
    and e: "out zeroAddress = Some e"
  shows "decimals e = 18 \<and> symbol e = nativeSymbol env chainId"
proof -
  let ?I = "\<lambda>b :: FormattedTokenBalances.
      \<forall>e. b zeroAddress = Some e \<longrightarrow> decimals e = 18 \<and> symbol e = nativeSymbol env chainId"
  from run have loop: "alchemyLoop env chainId account client 0 (Some []) Map.empty [] =
      Some (Inr out, log)"
    by (simp add: fetchContractBalancesWithAlchemy_def split: if_splits)
  have "?I out"
  proof (rule alchemyLoop_invariant [where I = ?I, OF loop])
    show "?I Map.empty" by simp
  next
    fix k pk b b' pk'
    assume ib: "?I b" and pass: "alchemyPass env chainId account client k pk b = Inr (b', pk')"
    show "?I b'"
    proof (intro allI impI)
      fix v assume "b' zeroAddress = Some v"
      from alchemyPass_keys [OF pass this] ib zero
      show "decimals v = 18 \<and> symbol v = nativeSymbol env chainId" by blast
    qed
  qed
  with e show ?thesis by blast
qed

lemma alchemy_keys_checksummed:
  assumes run: "fetchContractBalancesWithAlchemy env chainId account client = Some (Inr out, log)"
    and v: "out t = Some v"
  shows "t = zeroAddress \<or> (\<exists>c. getAddress env c = Inr t)"
proof -
  let ?I = "\<lambda>b :: FormattedTokenBalances.
      \<forall>t v. b t = Some v \<longrightarrow> t = zeroAddress \<or> (\<exists>c. getAddress env c = Inr t)"
  from run have loop: "alchemyLoop env chainId account client 0 (Some []) Map.empty [] =
      Some (Inr out, log)"
    by (simp add: fetchContractBalancesWithAlchemy_def split: if_splits)
  have "?I out"
  proof (rule alchemyLoop_invariant [where I = ?I, OF loop])
    show "?I Map.empty" by simp
  next
    fix k pk b b' pk'
    assume ib: "?I b" and pass: "alchemyPass env chainId account client k pk b = Inr (b', pk')"
    show "?I b'"
    proof (intro allI impI)
      fix t v assume "b' t = Some v"
      from alchemyPass_keys [OF pass this] ib
      show "t = zeroAddress \<or> (\<exists>c. getAddress env c = Inr t)" by blast
    qed
  qed
  with v show ?thesis by blast
qed

lemma mapThrowing_set:
  "mapThrowing f xs = Inr ys \<Longrightarrow> y \<in> set ys \<Longrightarrow> \<exists>x\<in>set xs. f x = Inr y"
  by (induction xs arbitrary: ys) (auto split: sum.splits)

lemma fetchSplitActiveBalances_keys_checksummed:
  assumes "fetchSplitActiveBalances env type chainId splitAddress publicClient T = Inr out"
    and "out t = Some v"
  shows "\<exists>c\<in>set T. getAddress env c = Inr t"
proof -
  from assms(1) obtain T' tokenData R where
    fl: "mapThrowing (getAddress env) T = Inr T'" and
    run: "processSplitBalanceMulticallResponse env type chainId T' tokenData R Map.empty = Inr out"
    by (auto simp: fetchSplitActiveBalances_def Let_def split: sum.splits)
  from forEachIndexed_origin [OF splitBalanceCallback_stores
      run [unfolded processSplitBalanceMulticallResponse_def] assms(2)]
  obtain j where "j < length T'" "T' ! j = t" by auto
  then have "t \<in> set T'" using nth_mem by blast
  from mapThrowing_set [OF fl this] show ?thesis .
qed

lemma fetchActiveBalances_keys_as_given:
  assumes "fetchActiveBalances env chainId accountAddress publicClient T = Inr out"
    and "out t = Some v"
  shows "t \<in> set T"
proof -
  from assms(1) obtain tokenData R where
    run: "processBalanceMulticallResponse env chainId T tokenData R Map.empty = Inr out"
    by (auto simp: fetchActiveBalances_def Let_def split: sum.splits)
  from forEachIndexed_origin [OF balanceCallback_stores
      run [unfolded processBalanceMulticallResponse_def] assms(2)]
  obtain j where "j < length T" "T ! j = t" by auto
  then show ?thesis using nth_mem by blast
qed

text \<open>
  C8. In the output of either reducer started on the empty mapping, and so in the output
  of \<^verbatim>\<open>fetchActiveBalances\<close> and \<^verbatim>\<open>fetchSplitActiveBalances\<close>, an entry under the
  native sentinel has 18 decimals and the native-currency symbol that \<^verbatim>\<open>CHAIN_INFO\<close>
  registers for the chain, or \<^verbatim>\<open>ETH\<close> when the chain is not registered. The metadata
  mapping plays no part in it: with any other metadata mapping a reducer returns as well,
  with the same native entry. The same holds for the output of
  \<^verbatim>\<open>fetchContractBalancesWithAlchemy\<close>, given that \<^verbatim>\<open>getAddress\<close> maps no other string
  to the sentinel (viem's does not: the checksummed form differs from its input at most
  in the case of letters).
\<close>

theorem native_entry_metadata:
  "(processBalanceMulticallResponse env chainId T tokenData R Map.empty = Inr out \<and>
    out zeroAddress = Some e \<longrightarrow>
      decimals e = 18 \<and>
      symbol e = (case CHAIN_INFO env chainId of
                    None \<Rightarrow> ''ETH'' | Some info \<Rightarrow> nativeCurrencySymbol info)) \<and>
   (processSplitBalanceMulticallResponse env type chainId T tokenData R Map.empty = Inr outS \<and>
    outS zeroAddress = Some eS \<longrightarrow>
      decimals eS = 18 \<and>
      symbol eS = (case CHAIN_INFO env chainId of
                     None \<Rightarrow> ''ETH'' | Some info \<Rightarrow> nativeCurrencySymbol info)) \<and>
   (processBalanceMulticallResponse env chainId T tokenData R balances = Inr outB \<longrightarrow>
      (\<exists>outB'. processBalanceMulticallResponse env chainId T tokenData' R balances = Inr outB' \<and>
               outB' zeroAddress = outB zeroAddress)) \<and>
   (processSplitBalanceMulticallResponse env type chainId T tokenData R balances = Inr outC \<longrightarrow>
      (\<exists>outC'. processSplitBalanceMulticallResponse env type chainId T tokenData' R balances =
                 Inr outC' \<and>
               outC' zeroAddress = outC zeroAddress)) \<and>
   (fetchActiveBalances env chainId account client T = Inr outF \<and> outF zeroAddress = Some eF \<longrightarrow>
      decimals eF = 18 \<and>
      symbol eF = (case CHAIN_INFO env chainId of
                     None \<Rightarrow> ''ETH'' | Some info \<Rightarrow> nativeCurrencySymbol info)) \<and>
   (fetchSplitActiveBalances env type chainId account client T = Inr outG \<and>
    outG zeroAddress = Some eG \<longrightarrow>
      decimals eG = 18 \<and>
      symbol eG = (case CHAIN_INFO env chainId of
                     None \<Rightarrow> ''ETH'' | Some info \<Rightarrow> nativeCurrencySymbol info)) \<and>
   ((\<forall>c. getAddress env c = Inr zeroAddress \<longrightarrow> c = zeroAddress) \<and>
    fetchContractBalancesWithAlchemy env chainId account client = Some (Inr outH, sent) \<and>
    outH zeroAddress = Some eH \<longrightarrow>
      decimals eH = 18 \<and>
      symbol eH = (case CHAIN_INFO env chainId of
                     None \<Rightarrow> ''ETH'' | Some info \<Rightarrow> nativeCurrencySymbol info))"
proof (intro conjI impI)
  assume "processBalanceMulticallResponse env chainId T tokenData R Map.empty = Inr out \<and>
    out zeroAddress = Some e"
  then have "decimals e = 18 \<and> symbol e = nativeSymbol env chainId"
    using balance_run_native [of env chainId T tokenData R Map.empty out e] by simp
  then show "decimals e = 18"
    "symbol e = (case CHAIN_INFO env chainId of
                    None \<Rightarrow> ''ETH'' | Some info \<Rightarrow> nativeCurrencySymbol info)"
    by (simp_all add: nativeSymbol_def)
next
  assume "processSplitBalanceMulticallResponse env type chainId T tokenData R Map.empty = Inr outS \<and>
    outS zeroAddress = Some eS"
  then have "decimals eS = 18 \<and> symbol eS = nativeSymbol env chainId"
    using split_run_native [of env type chainId T tokenData R Map.empty outS eS] by simp
  then show "decimals eS = 18"
    "symbol eS = (case CHAIN_INFO env chainId of
                    None \<Rightarrow> ''ETH'' | Some info \<Rightarrow> nativeCurrencySymbol info)"
    by (simp_all add: nativeSymbol_def)
next
  assume "processBalanceMulticallResponse env chainId T tokenData R balances = Inr outB"
  then show "\<exists>outB'. processBalanceMulticallResponse env chainId T tokenData' R balances = Inr outB' \<and>
               outB' zeroAddress = outB zeroAddress"
    by (rule balance_run_other_metadata)
next
  assume "processSplitBalanceMulticallResponse env type chainId T tokenData R balances = Inr outC"
  then show "\<exists>outC'. processSplitBalanceMulticallResponse env type chainId T tokenData' R balances =
                 Inr outC' \<and>
               outC' zeroAddress = outC zeroAddress"
    by (rule split_run_other_metadata)
next
  assume "fetchActiveBalances env chainId account client T = Inr outF \<and> outF zeroAddress = Some eF"
  then have "decimals eF = 18 \<and> symbol eF = nativeSymbol env chainId"
    using fetchActiveBalances_native [of env chainId account client T outF eF] by simp
  then show "decimals eF = 18"
    "symbol eF = (case CHAIN_INFO env chainId of
                    None \<Rightarrow> ''ETH'' | Some info \<Rightarrow> nativeCurrencySymbol info)"
    by (simp_all add: nativeSymbol_def)
next
  assume "fetchSplitActiveBalances env type chainId account client T = Inr outG \<and>
    outG zeroAddress = Some eG"
  then have "decimals eG = 18 \<and> symbol eG = nativeSymbol env chainId"
    using fetchSplitActiveBalances_native [of env type chainId account client T outG eG] by simp
  then show "decimals eG = 18"
    "symbol eG = (case CHAIN_INFO env chainId of
                    None \<Rightarrow> ''ETH'' | Some info \<Rightarrow> nativeCurrencySymbol info)"
    by (simp_all add: nativeSymbol_def)
next
  assume "(\<forall>c. getAddress env c = Inr zeroAddress \<longrightarrow> c = zeroAddress) \<and>
    fetchContractBalancesWithAlchemy env chainId account client = Some (Inr outH, sent) \<and>
    outH zeroAddress = Some eH"
  then have "decimals eH = 18 \<and> symbol eH = nativeSymbol env chainId"
    using alchemy_native [of env chainId account client outH sent eH] by simp
  then show "decimals eH = 18"
    "symbol eH = (case CHAIN_INFO env chainId of
                    None \<Rightarrow> ''ETH'' | Some info \<Rightarrow> nativeCurrencySymbol info)"
    by (simp_all add: nativeSymbol_def)
qed

theorem native_entry_metadata_witness:
  "processBalanceMulticallResponse sampleImports 1 [zeroAddress, usdcChecksummed] sampleTokenData
     [BigIntResult 16, BigIntResult 5] Map.empty =
     Inr [zeroAddress \<mapsto>
            \<lparr> rawAmount = 16, formattedAmount = ''scaled'', symbol = ''ETH'', decimals = 18 \<rparr>,
          usdcChecksummed \<mapsto>
            \<lparr> rawAmount = 5, formattedAmount = ''scaled'', symbol = ''USDC'', decimals = 6 \<rparr>] \<and>
   decimals \<lparr> rawAmount = 16, formattedAmount = ''scaled'', symbol = ''ETH'', decimals = 18 \<rparr> = 18 \<and>
   (\<exists>out'. processBalanceMulticallResponse sampleImports 1 [zeroAddress, usdcChecksummed] Map.empty
              [BigIntResult 16, BigIntResult 5] Map.empty = Inr out' \<and>
           out' zeroAddress =
             Some \<lparr> rawAmount = 16, formattedAmount = ''scaled'', symbol = ''ETH'',
                    decimals = 18 \<rparr>) \<and>
   processSplitBalanceMulticallResponse sampleImports splitV2 137 [zeroAddress] Map.empty
     [TupleResult (Some 2) (Some 3)] Map.empty =
     Inr [zeroAddress \<mapsto>
            \<lparr> rawAmount = 5, formattedAmount = ''scaled'', symbol = ''MATIC'', decimals = 18 \<rparr>]"
proof -
  let ?e = "\<lparr> rawAmount = 16, formattedAmount = ''scaled'', symbol = ''ETH'', decimals = 18 \<rparr>"
  let ?out = "[zeroAddress \<mapsto> ?e,
          usdcChecksummed \<mapsto>
            \<lparr> rawAmount = 5, formattedAmount = ''scaled'', symbol = ''USDC'', decimals = 6 \<rparr>]"
  have run: "processBalanceMulticallResponse sampleImports 1 [zeroAddress, usdcChecksummed]
      sampleTokenData [BigIntResult 16, BigIntResult 5] Map.empty = Inr ?out"
    by (simp add: reducer_defs sampleTokenData_def sampleImports_def sample_addresses)
  have at: "?out zeroAddress = Some ?e"
    by (simp add: sample_addresses)
  have run2: "processSplitBalanceMulticallResponse sampleImports splitV2 137 [zeroAddress] Map.empty
     [TupleResult (Some 2) (Some 3)] Map.empty =
     Inr [zeroAddress \<mapsto>
            \<lparr> rawAmount = 5, formattedAmount = ''scaled'', symbol = ''MATIC'', decimals = 18 \<rparr>]"
    by (simp add: reducer_defs sampleImports_def)
  note inst = native_entry_metadata [where env = sampleImports and chainId = 1
      and T = "[zeroAddress, usdcChecksummed]" and tokenData = sampleTokenData
      and R = "[BigIntResult 16, BigIntResult 5]" and out = ?out and e = ?e
      and balances = Map.empty and outB = ?out and tokenData' = Map.empty]
  from inst [THEN conjunct1] run at have a: "decimals ?e = 18" by blast
  from inst [THEN conjunct2, THEN conjunct2, THEN conjunct1] run at
  have b: "\<exists>out'. processBalanceMulticallResponse sampleImports 1 [zeroAddress, usdcChecksummed]
              Map.empty [BigIntResult 16, BigIntResult 5] Map.empty = Inr out' \<and>
           out' zeroAddress = Some ?e"
    by simp
  from run a b run2 show ?thesis by blast
qed

text \<open>
  C9. The claim: every balance-fetch operation normalises a token identifier to its
  checksummed form before using it as a key. \<^verbatim>\<open>fetchSplitActiveBalances\<close> and
  \<^verbatim>\<open>fetchContractBalancesWithAlchemy\<close> do (the lemmas above);
  \<^verbatim>\<open>fetchActiveBalances\<close> never calls \<^verbatim>\<open>getAddress\<close> and keys its output by the
  identifiers as given. Run on a lower-case address it returns a mapping with that
  lower-case key, where \<^verbatim>\<open>fetchSplitActiveBalances\<close> on the same list returns the
  checksummed key.
\<close>

theorem fetchActiveBalances_key_not_normalized:
  "fetchActiveBalances sampleImports 1 sampleAccount sampleClient [usdcLower] =
     Inr [usdcLower \<mapsto>
            \<lparr> rawAmount = 5, formattedAmount = ''scaled'', symbol = ''USDC'', decimals = 6 \<rparr>] \<and>
   getAddress sampleImports usdcLower = Inr usdcChecksummed \<and>
   usdcLower \<noteq> usdcChecksummed \<and>
   fetchSplitActiveBalances sampleImports splitV1 1 sampleAccount sampleClient [usdcLower] =
     Inr [usdcChecksummed \<mapsto>
            \<lparr> rawAmount = 5, formattedAmount = ''scaled'', symbol = ''USDC'', decimals = 6 \<rparr>]"
  by (simp add: fetchActiveBalances_def fetchSplitActiveBalances_def fetchTokenData_def
        getTokenDataCalls_def getTokenBalanceCalls_def getSplitTokenBalanceCalls_def
        tokenDataCallback_def reducer_defs sample_defs sample_addresses)

end
